theory Spec2Isabelle
  imports Main "HOL-Library.Word" "HOL-Library.Multiset"
begin

section \<open>Shared data\<close>

text \<open>
  Byte sequences (Node \<open>Buffer\<close>s, file contents) are lists of 8-bit words. A file on
  the local disk is what \<open>fs.statSync\<close>, \<open>fs.readFileSync\<close> and \<open>path.basename\<close>
  see of it: its base name and its bytes; its size is the length of the bytes.
\<close>

type_synonym bytes = "8 word list"

record local_file =
  basename :: string
  content :: bytes

text \<open>
  The environment of a run: the digest (\<open>calculateFileHash\<close>, SHA-256 of Node's
  \<open>crypto\<close>, rendered in hex), the stream of identifiers \<open>generateUniqueId\<close> returns
  (the \<open>n\<close>-th call returns \<open>e_gen_id n\<close>), and the object store's answer to the
  \<open>n\<close>-th put it receives (\<open>None\<close>: accepted, \<open>Some msg\<close>: rejected with that message).
\<close>

record env =
  e_hash :: "bytes \<Rightarrow> string"
  e_gen_id :: "nat \<Rightarrow> string"
  e_s3_error :: "nat \<Rightarrow> string option"

section \<open>Storage providers (StorjProvider, ArweaveProvider)\<close>

datatype provider_kind = StorjProvider | ArweaveProvider

record provider =
  p_kind :: provider_kind
  p_isConnected :: bool

fun p_name :: "provider \<Rightarrow> string" where
  "p_name p = (case p_kind p of StorjProvider \<Rightarrow> ''Storj'' | ArweaveProvider \<Rightarrow> ''Arweave'')"

definition maxFileSize :: nat where
  "maxFileSize = 200 * 1024 * 1024"

text \<open>
  The options object handed to \<open>ProviderManager.upload\<close> and spread into each provider
  call. \<open>createBackup\<close> is \<open>None\<close> when the caller leaves it undefined. The keys
  \<open>strategy\<close> and \<open>isBackup\<close> that \<open>upload\<close> adds are read by no provider and are left out.
\<close>

record options =
  permanent :: bool
  critical :: bool
  createBackup :: "bool option"
  originalName :: "string option"
  prefix :: "string option"

text \<open>
  The world outside the components: how many identifiers were drawn, the puts the
  object stores received, oldest first, and the \<open>compressed_*\<close> and \<open>encrypted_*\<close> files
  written to the temporary directory. A put is logged when the provider hands the bytes
  to S3 (\<open>s3.upload\<close> or the multipart calls), whether or not the store accepts.
\<close>

record s3_put =
  put_provider :: string
  put_key :: string
  put_body :: bytes

record world =
  w_ids :: nat
  w_puts :: "s3_put list"
  w_temp :: "local_file list"

text \<open>
  What a provider's \<open>upload\<close> resolves to. \<open>r_ref\<close> is the identity of the result
  object: \<open>ProviderManager.upload\<close> compares results by reference (\<open>r !== primaryResult\<close>),
  and every call builds a fresh object.
\<close>

record upload_result =
  r_ref :: nat
  r_provider :: string
  r_fileId :: string
  r_key :: string
  r_size :: nat
  r_hash :: string
  r_permanent :: bool

datatype upload_error =
    NotConnected string
  | ExceedsFreeTier nat nat
  | UploadFailed string string
  | BothFailed upload_error upload_error
  | NoHealthyProviders
  | ReferenceError string

definition upload_key :: "provider \<Rightarrow> options \<Rightarrow> string \<Rightarrow> local_file \<Rightarrow> string" where
  "upload_key p opts fileId f =
     (case p_kind p of
        StorjProvider \<Rightarrow>
          (case prefix opts of
             None \<Rightarrow> ''uploads''
           | Some pre \<Rightarrow> if pre = [] then ''uploads'' else pre)
      | ArweaveProvider \<Rightarrow> ''permanent'')
     @ ''/'' @ fileId @ ''-'' @ basename f"

text \<open>
  \<open>StorjProvider.upload\<close> and \<open>ArweaveProvider.upload\<close>: refuse when not connected
  (and, for Arweave, above the free-tier size), then draw a file id, build the key and
  hand the bytes to S3; a rejected put is rethrown as \<open>"<name> upload failed: <msg>"\<close>.
\<close>

definition provider_upload ::
  "env \<Rightarrow> provider \<Rightarrow> local_file \<Rightarrow> options \<Rightarrow> world \<Rightarrow> (upload_error + upload_result) \<times> world" where
  "provider_upload E p f opts w =
     (if \<not> p_isConnected p then (Inl (NotConnected (p_name p)), w)
      else if p_kind p = ArweaveProvider \<and> length (content f) > maxFileSize
        then (Inl (ExceedsFreeTier (length (content f)) maxFileSize), w)
      else
        let fileHash = e_hash E (content f);
            fileId = e_gen_id E (w_ids w);
            key = upload_key p opts fileId f;
            w1 = w\<lparr>w_ids := Suc (w_ids w),
                   w_puts := w_puts w @ [\<lparr>put_provider = p_name p, put_key = key, put_body = content f\<rparr>]\<rparr>
        in (case e_s3_error E (length (w_puts w)) of
              Some msg \<Rightarrow> (Inl (UploadFailed (p_name p) msg), w1)
            | None \<Rightarrow>
                (Inr \<lparr>r_ref = w_ids w, r_provider = p_name p, r_fileId = fileId, r_key = key,
                      r_size = length (content f), r_hash = fileHash,
                      r_permanent = (p_kind p = ArweaveProvider)\<rparr>, w1)))"

section \<open>ProviderManager\<close>

record health =
  h_status :: string

text \<open>
  \<open>providers\<close> and \<open>healthStatus\<close> are JavaScript \<open>Map\<close>s, which iterate in insertion
  order: association lists.
\<close>

record provider_manager =
  providers :: "(string \<times> provider) list"
  healthStatus :: "(string \<times> health) list"
  failoverEnabled :: bool

record strategy_def =
  sd_primary :: string
  sd_backup :: "string option"
  sd_condition :: "nat \<Rightarrow> options \<Rightarrow> bool"

text \<open>The strategies in the order \<open>defineUploadStrategies\<close> inserts them.\<close>

definition defineUploadStrategies :: "(string \<times> strategy_def) list" where
  "defineUploadStrategies =
     [(''small'', \<lparr>sd_primary = ''storj'', sd_backup = Some ''arweave'',
         sd_condition = (\<lambda>fileSize opts. fileSize < 10 * 1024 * 1024)\<rparr>),
      (''medium'', \<lparr>sd_primary = ''storj'', sd_backup = None,
         sd_condition = (\<lambda>fileSize opts. fileSize \<ge> 10 * 1024 * 1024 \<and> fileSize < 100 * 1024 * 1024)\<rparr>),
      (''large'', \<lparr>sd_primary = ''storj'', sd_backup = None,
         sd_condition = (\<lambda>fileSize opts. fileSize \<ge> 100 * 1024 * 1024)\<rparr>),
      (''permanent'', \<lparr>sd_primary = ''arweave'', sd_backup = Some ''storj'',
         sd_condition = (\<lambda>fileSize opts. permanent opts = True)\<rparr>),
      (''critical'', \<lparr>sd_primary = ''storj'', sd_backup = Some ''arweave'',
         sd_condition = (\<lambda>fileSize opts. critical opts = True \<and> fileSize < 200 * 1024 * 1024)\<rparr>)]"

definition isProviderHealthy :: "provider_manager \<Rightarrow> string \<Rightarrow> bool" where
  "isProviderHealthy pm providerName =
     (case map_of (healthStatus pm) providerName of
        None \<Rightarrow> False
      | Some h \<Rightarrow> h_status h = ''healthy'')"

fun first_healthy :: "(string \<times> health) list \<Rightarrow> string option" where
  "first_healthy [] = None"
| "first_healthy ((n, h) # rest) = (if h_status h = ''healthy'' then Some n else first_healthy rest)"

definition getHealthiestProvider :: "provider_manager \<Rightarrow> string option" where
  "getHealthiestProvider pm =
     (case first_healthy (healthStatus pm) of
        Some n \<Rightarrow> Some n
      | None \<Rightarrow> (case providers pm of [] \<Rightarrow> None | (n, p) # rest \<Rightarrow> Some n))"

record strategy =
  st_name :: string
  st_primary :: "string option"
  st_backup :: "string option"
  st_primaryProvider :: "provider option"
  st_backupProvider :: "provider option"

definition providers_get :: "provider_manager \<Rightarrow> string option \<Rightarrow> provider option" where
  "providers_get pm n = (case n of None \<Rightarrow> None | Some k \<Rightarrow> map_of (providers pm) k)"

fun selectStrategy_loop ::
  "provider_manager \<Rightarrow> (string \<times> strategy_def) list \<Rightarrow> nat \<Rightarrow> options \<Rightarrow> strategy" where
  "selectStrategy_loop pm [] fileSize opts =
     \<lparr>st_name = ''default'',
      st_primary = getHealthiestProvider pm,
      st_backup = None,
      st_primaryProvider = providers_get pm (getHealthiestProvider pm),
      st_backupProvider = None\<rparr>"
| "selectStrategy_loop pm ((strategyName, s) # rest) fileSize opts =
     (if sd_condition s fileSize opts then
        let primaryHealthy = isProviderHealthy pm (sd_primary s);
            backupHealthy = (case sd_backup s of None \<Rightarrow> False | Some b \<Rightarrow> isProviderHealthy pm b)
        in \<lparr>st_name = strategyName,
            st_primary = (if primaryHealthy then Some (sd_primary s)
                          else if backupHealthy then sd_backup s else None),
            st_backup = (if sd_backup s \<noteq> None \<and> backupHealthy then sd_backup s else None),
            st_primaryProvider = providers_get pm (Some (sd_primary s)),
            st_backupProvider = providers_get pm (sd_backup s)\<rparr>
      else selectStrategy_loop pm rest fileSize opts)"

definition selectStrategy :: "provider_manager \<Rightarrow> nat \<Rightarrow> options \<Rightarrow> strategy" where
  "selectStrategy pm fileSize opts = selectStrategy_loop pm defineUploadStrategies fileSize opts"

record upload_outcome =
  u_primary :: upload_result
  u_backups :: "upload_result list"
  u_strategy :: string
  u_totalUploads :: nat
  u_fileSize :: nat

text \<open>
  The \<open>try\<close>/\<open>catch\<close> block of \<open>ProviderManager.upload\<close> around the primary put
  (lines 228 to 270): the primary put and, when it throws, the failover to the backup
  provider.
\<close>

definition primary_upload ::
  "env \<Rightarrow> provider_manager \<Rightarrow> strategy \<Rightarrow> local_file \<Rightarrow> options \<Rightarrow> world \<Rightarrow> (upload_error + upload_result) \<times> world" where
  "primary_upload E pm st f opts w =
     (case st_primaryProvider st of
        None \<Rightarrow> (Inl NoHealthyProviders, w)
      | Some p \<Rightarrow>
          (case provider_upload E p f opts w of
             (Inr primaryResult, w1) \<Rightarrow> (Inr primaryResult, w1)
           | (Inl error, w1) \<Rightarrow>
               (case st_backupProvider st of
                  None \<Rightarrow> (Inl error, w1)
                | Some b \<Rightarrow>
                    if failoverEnabled pm then
                      (case provider_upload E b f opts w1 of
                         (Inr backupResult, w2) \<Rightarrow> (Inr backupResult, w2)
                       | (Inl backupError, w2) \<Rightarrow> (Inl (BothFailed error backupError), w2))
                    else (Inl error, w1))))"

text \<open>
  The block after it (lines 272 to 291): the best-effort backup copy. A failure is
  logged and swallowed.
\<close>

definition backup_upload ::
  "env \<Rightarrow> strategy \<Rightarrow> local_file \<Rightarrow> options \<Rightarrow> upload_result list \<Rightarrow> world \<Rightarrow> upload_result list \<times> world" where
  "backup_upload E st f opts results w =
     (case st_backupProvider st of
        None \<Rightarrow> (results, w)
      | Some b \<Rightarrow>
          if st_backup st \<noteq> st_primary st \<and> createBackup opts \<noteq> Some False then
            (case provider_upload E b f opts w of
               (Inr backupResult, w1) \<Rightarrow> (results @ [backupResult], w1)
             | (Inl backupError, w1) \<Rightarrow> (results, w1))
          else (results, w))"

text \<open>
  The names bound in the scope of \<open>ProviderManager.js\<close>, besides the JavaScript
  globals: its four imports and the class it declares. The file is an ES module
  (\<open>import\<close> and \<open>export\<close> statements); in an ES module no \<open>require\<close> is bound, and the
  file binds none itself.
\<close>

definition module_scope :: "string list" where
  "module_scope =
     [''EventEmitter'', ''StorjProvider'', ''ArweaveProvider'', ''logger'', ''ProviderManager'']"

text \<open>
  \<open>ProviderManager.upload\<close>. Its first statement,
  \<open>const fileSize = require('fs').statSync(filePath).size\<close>, evaluates the identifier
  \<open>require\<close>: where no such name is in scope this throws a \<open>ReferenceError\<close>, and
  nothing after it runs.
\<close>

definition upload ::
  "env \<Rightarrow> provider_manager \<Rightarrow> local_file \<Rightarrow> options \<Rightarrow> world \<Rightarrow> (upload_error + upload_outcome) \<times> world" where
  "upload E pm f opts w =
     (if ''require'' \<notin> set module_scope then (Inl (ReferenceError ''require''), w)
      else
        (let fileSize = length (content f);
             st = selectStrategy pm fileSize opts
         in (case primary_upload E pm st f opts w of
               (Inl err, w1) \<Rightarrow> (Inl err, w1)
             | (Inr primaryResult, w1) \<Rightarrow>
                 (case backup_upload E st f opts [primaryResult] w1 of
                    (results, w2) \<Rightarrow>
                      (Inr \<lparr>u_primary = primaryResult,
                            u_backups = filter (\<lambda>r. r_ref r \<noteq> r_ref primaryResult) results,
                            u_strategy = st_name st,
                            u_totalUploads = length results,
                            u_fileSize = fileSize\<rparr>, w2)))))"

section \<open>Download (providers and ProviderManager)\<close>

text \<open>
  What an object store holds under a key: the body and the \<open>file-hash\<close> entry of the
  object's metadata (\<open>None\<close> when the metadata has no such entry). A store is read per
  provider and key; \<open>None\<close> is a key for which \<open>headObject\<close> or \<open>getObject\<close> throws.
\<close>

record s3_object =
  o_body :: bytes
  o_file_hash :: "string option"

type_synonym object_store = "provider_kind \<Rightarrow> string \<Rightarrow> s3_object option"

record download_options =
  d_originalName :: "string option"
  d_strictIntegrity :: bool

text \<open>
  The result of a provider's \<open>download\<close>; \<open>dr_body\<close> is the file it left at
  \<open>downloadPath\<close>, which the caller streams to the client.
\<close>

record download_result =
  dr_provider :: string
  dr_size :: nat
  dr_hash :: string
  dr_integrity :: bool
  dr_body :: bytes

datatype download_cause = ObjectUnavailable | IntegrityVerificationFailed

datatype download_error =
    DownloadNotConnected string
  | DownloadFailed string download_cause
  | AllProvidersFailed "(string \<times> string) list"

text \<open>
  \<open>StorjProvider.download\<close> and \<open>ArweaveProvider.download\<close> (they differ in the wording of
  the integrity message only): fetch, write to \<open>downloadPath\<close>, re-hash the written file
  and compare with the recorded \<open>file-hash\<close>; on a mismatch under \<open>strictIntegrity\<close> the
  file is unlinked and the call throws.
\<close>

definition provider_download ::
  "env \<Rightarrow> object_store \<Rightarrow> provider \<Rightarrow> string \<Rightarrow> download_options \<Rightarrow> download_error + download_result" where
  "provider_download E store p key opts =
     (if \<not> p_isConnected p then Inl (DownloadNotConnected (p_name p))
      else
        (case store (p_kind p) key of
           None \<Rightarrow> Inl (DownloadFailed (p_name p) ObjectUnavailable)
         | Some obj \<Rightarrow>
             let originalHash = o_file_hash obj;
                 downloadHash = e_hash E (o_body obj);
                 isValid = (Some downloadHash = originalHash)
             in if \<not> isValid \<and> d_strictIntegrity opts
                then Inl (DownloadFailed (p_name p) IntegrityVerificationFailed)
                else Inr \<lparr>dr_provider = p_name p, dr_size = length (o_body obj),
                          dr_hash = downloadHash, dr_integrity = isValid,
                          dr_body = o_body obj\<rparr>))"

text \<open>\<open>[...new Set(keys)]\<close>: duplicates dropped, first occurrences kept in order.\<close>

fun uniq :: "'a list \<Rightarrow> 'a list \<Rightarrow> 'a list" where
  "uniq seen [] = []"
| "uniq seen (x # xs) = (if x \<in> set seen then uniq seen xs else x # uniq (seen @ [x]) xs)"

definition generatePossibleKeys :: "string \<Rightarrow> download_options \<Rightarrow> string list" where
  "generatePossibleKeys fileId opts =
     uniq []
       ([''uploads/'' @ fileId, ''permanent/'' @ fileId]
        @ (case d_originalName opts of
             None \<Rightarrow> []
           | Some n \<Rightarrow>
               if n = [] then []
               else [''uploads/'' @ fileId @ ''-'' @ n, ''permanent/'' @ fileId @ ''-'' @ n])
        @ [''uploads/'' @ takeWhile (\<lambda>c. c \<noteq> CHR ''-'') fileId @ ''-'' @ fileId,
           ''permanent/'' @ takeWhile (\<lambda>c. c \<noteq> CHR ''-'') fileId @ ''-'' @ fileId])"

text \<open>The inner loop of \<open>ProviderManager.download\<close>: a key that throws is skipped.\<close>

fun try_keys ::
  "env \<Rightarrow> object_store \<Rightarrow> provider \<Rightarrow> string list \<Rightarrow> download_options \<Rightarrow> download_result option" where
  "try_keys E store p [] opts = None"
| "try_keys E store p (key # keys) opts =
     (case provider_download E store p key opts of
        Inr result \<Rightarrow> Some result
      | Inl keyError \<Rightarrow> try_keys E store p keys opts)"

text \<open>
  The outer loop. \<open>downloadAttempts\<close> is appended to in the outer \<open>catch\<close> only, which
  nothing reaches: every throw of a provider is caught by the inner \<open>catch\<close>, and
  \<open>generatePossibleKeys\<close> does not throw on a string. The list is threaded as the source
  has it and is still empty when the loop ends.
\<close>

fun download_loop ::
  "env \<Rightarrow> provider_manager \<Rightarrow> object_store \<Rightarrow> (string \<times> provider) list \<Rightarrow> string \<Rightarrow>
   download_options \<Rightarrow> (string \<times> string) list \<Rightarrow> download_error + download_result" where
  "download_loop E pm store [] fileId opts downloadAttempts = Inl (AllProvidersFailed downloadAttempts)"
| "download_loop E pm store ((providerName, p) # rest) fileId opts downloadAttempts =
     (if \<not> isProviderHealthy pm providerName
      then download_loop E pm store rest fileId opts downloadAttempts
      else
        (case try_keys E store p (generatePossibleKeys fileId opts) opts of
           Some result \<Rightarrow> Inr result
         | None \<Rightarrow> download_loop E pm store rest fileId opts downloadAttempts))"

definition download ::
  "env \<Rightarrow> provider_manager \<Rightarrow> object_store \<Rightarrow> string \<Rightarrow> download_options \<Rightarrow> download_error + download_result" where
  "download E pm store fileId opts = download_loop E pm store (providers pm) fileId opts []"

section \<open>Encryption utilities (utils/encryption.js)\<close>

definition KEY_LENGTH :: nat where
  "KEY_LENGTH = 32"

definition IV_LENGTH :: nat where
  "IV_LENGTH = 16"

definition TAG_LENGTH :: nat where
  "TAG_LENGTH = 16"

text \<open>
  The primitives of Node's \<open>crypto\<close> module that \<open>encrypt\<close> and \<open>decrypt\<close> call are
  parameters: \<open>randomBytes\<close>; \<open>scryptSync(key, 'salt', KEY_LENGTH)\<close>; the cipher object
  (\<open>createCipher\<close>, \<open>update\<close>, \<open>final\<close>, \<open>getAuthTag\<close>), which maps key, IV and data to the
  ciphertext and the authentication tag; and the decipher object (\<open>createDecipher\<close>,
  \<open>setAuthTag\<close>, \<open>update\<close>, \<open>final\<close>), which maps key, IV, tag and ciphertext to the
  plaintext, or to \<open>None\<close> when \<open>final\<close> throws.
\<close>

record crypto =
  c_randomBytes :: "nat \<Rightarrow> bytes"
  c_scrypt :: "string \<Rightarrow> bytes"
  c_cipher :: "bytes \<Rightarrow> bytes \<Rightarrow> bytes \<Rightarrow> bytes \<times> bytes"
  c_decipher :: "bytes \<Rightarrow> bytes \<Rightarrow> bytes \<Rightarrow> bytes \<Rightarrow> bytes option"

text \<open>The \<open>key\<close> argument: \<open>null\<close> or \<open>undefined\<close>, a string, or a \<open>Buffer\<close>.\<close>

datatype key_arg = NoKey | KeyString string | KeyBuffer bytes

datatype crypto_cause = InvalidKeyLength nat | KeyMissing | DataTooShort | AuthenticationFailed

datatype crypto_error = EncryptionFailed crypto_cause | DecryptionFailed crypto_cause

record encrypt_result =
  enc_encrypted :: bytes
  enc_key :: bytes
  enc_iv :: bytes
  enc_tag :: bytes

definition generateKey :: "crypto \<Rightarrow> bytes" where
  "generateKey C = c_randomBytes C KEY_LENGTH"

definition generateIV :: "crypto \<Rightarrow> bytes" where
  "generateIV C = c_randomBytes C IV_LENGTH"

definition encrypt :: "crypto \<Rightarrow> bytes \<Rightarrow> key_arg \<Rightarrow> bytes option \<Rightarrow> crypto_error + encrypt_result" where
  "encrypt C data key iv =
     (let encryptionKey =
            (case key of
               NoKey \<Rightarrow> KeyBuffer (generateKey C)
             | KeyString s \<Rightarrow> if s = [] then KeyBuffer (generateKey C) else KeyString s
             | KeyBuffer b \<Rightarrow> KeyBuffer b);
          initVector = (case iv of None \<Rightarrow> generateIV C | Some v \<Rightarrow> v);
          finalKey =
            (case encryptionKey of
               KeyString s \<Rightarrow> Inr (c_scrypt C s)
             | KeyBuffer b \<Rightarrow>
                 if length b = KEY_LENGTH then Inr b
                 else Inl (EncryptionFailed (InvalidKeyLength (length b)))
             | NoKey \<Rightarrow> Inl (EncryptionFailed KeyMissing))
      in (case finalKey of
            Inl err \<Rightarrow> Inl err
          | Inr k \<Rightarrow>
              (case c_cipher C k initVector data of
                 (encrypted, tag) \<Rightarrow>
                   Inr \<lparr>enc_encrypted = initVector @ tag @ encrypted,
                        enc_key = k, enc_iv = initVector, enc_tag = tag\<rparr>)))"

definition decrypt ::
  "crypto \<Rightarrow> bytes \<Rightarrow> key_arg \<Rightarrow> bytes option \<Rightarrow> bytes option \<Rightarrow> crypto_error + bytes" where
  "decrypt C encryptedData key iv tag =
     (let parts =
            (case (iv, tag) of
               (Some v, Some t) \<Rightarrow> Inr (v, t, encryptedData)
             | _ \<Rightarrow>
                 if length encryptedData < IV_LENGTH + TAG_LENGTH
                 then Inl (DecryptionFailed DataTooShort)
                 else Inr (take IV_LENGTH encryptedData,
                           take TAG_LENGTH (drop IV_LENGTH encryptedData),
                           drop (IV_LENGTH + TAG_LENGTH) encryptedData))
      in (case parts of
            Inl err \<Rightarrow> Inl err
          | Inr (initVector, authTag, ciphertext) \<Rightarrow>
              (case (case key of
                       KeyString s \<Rightarrow> Inr (c_scrypt C s)
                     | KeyBuffer b \<Rightarrow>
                         if length b = KEY_LENGTH then Inr b
                         else Inl (DecryptionFailed (InvalidKeyLength (length b)))
                     | NoKey \<Rightarrow> Inl (DecryptionFailed KeyMissing)) of
                 Inl err \<Rightarrow> Inl err
               | Inr finalKey \<Rightarrow>
                   (case c_decipher C finalKey initVector authTag ciphertext of
                      None \<Rightarrow> Inl (DecryptionFailed AuthenticationFailed)
                    | Some decrypted \<Rightarrow> Inr decrypted))))"

section \<open>FileProcessor\<close>

text \<open>
  The codecs \<open>FileProcessor\<close> calls: \<open>pako.gzip\<close> at a compression level (\<open>None\<close> when
  it throws), the \<open>crypto\<close> primitives, and the checks \<open>validateFile\<close> makes on the file
  name alone (\<open>validateFileType\<close> and \<open>performSecurityScan\<close>).
\<close>

datatype validation_error =
    FileIsEmpty
  | ExceedsMaximumSize nat nat
  | TypeNotAllowed
  | SecurityScanFailed

record codecs =
  z_gzip :: "bytes \<Rightarrow> nat \<Rightarrow> bytes option"
  z_crypto :: crypto
  z_nameChecks :: "string \<Rightarrow> validation_error list"

record fp_config =
  cfg_maxFileSize :: nat
  cfg_chunkSize :: nat
  cfg_compressionThreshold :: nat
  cfg_enableCompression :: bool
  cfg_enableEncryption :: bool
  cfg_enableDeduplication :: bool

text \<open>
  The options \<open>processFile\<close> and its stages read; \<open>None\<close> is a key left undefined.
\<close>

record process_options =
  po_allowDeduplication :: "bool option"
  po_encrypt :: "bool option"
  po_encryptionKey :: key_arg
  po_compressionLevel :: "nat option"
  po_chunkSize :: "nat option"

text \<open>An entry of \<open>deduplicationCache\<close> (its timestamp is left out).\<close>

record dedup_entry =
  de_processingId :: string
  de_finalHash :: string
  de_size :: nat

record fp_state =
  deduplicationCache :: "string \<Rightarrow> dedup_entry option"

text \<open>
  A chunk descriptor; \<open>ch_data\<close> is the content of the file at \<open>chunk.path\<close>, and
  \<open>ch_id\<close> the identifier drawn for that path.
\<close>

record chunk =
  ch_index :: nat
  ch_id :: string
  ch_data :: bytes
  ch_size :: nat
  ch_hash :: string
  ch_start :: nat
  ch_end :: nat

definition validateFile :: "codecs \<Rightarrow> fp_config \<Rightarrow> local_file \<Rightarrow> validation_error list" where
  "validateFile Z cfg f =
     (if length (content f) = 0 then [FileIsEmpty] else [])
     @ (if length (content f) > cfg_maxFileSize cfg
        then [ExceedsMaximumSize (length (content f)) (cfg_maxFileSize cfg)] else [])
     @ z_nameChecks Z (basename f)"

text \<open>
  \<open>compressFile\<close>. The sizes are integers below \<open>2^53\<close>, on which the floating-point
  test \<open>compressedSize < originalSize * 0.9\<close> decides as the exact \<open>10 * c < 9 * n\<close>
  does: for \<open>n\<close> a multiple of ten the product rounds to the integer \<open>9n/10\<close>, and
  otherwise it stays strictly between the two integers around \<open>9n/10\<close>. The \<open>ratio\<close>
  field, a percentage formatted by \<open>toFixed(2)\<close>, is left out.
\<close>

text \<open>\<open>options.compressionLevel || 6\<close>.\<close>

definition gzipLevel :: "process_options \<Rightarrow> nat" where
  "gzipLevel opts =
     (case po_compressionLevel opts of
        None \<Rightarrow> 6
      | Some l \<Rightarrow> if l = 0 then 6 else l)"

datatype compress_result =
    Beneficial local_file nat nat
  | NotBeneficial
  | CompressionError

definition compressFile ::
  "codecs \<Rightarrow> env \<Rightarrow> local_file \<Rightarrow> process_options \<Rightarrow> world \<Rightarrow> compress_result \<times> world" where
  "compressFile Z E f opts w =
     (let originalSize = length (content f);
          tempCompressedPath = ''compressed_'' @ e_gen_id E (w_ids w) @ ''.gz'';
          w1 = w\<lparr>w_ids := Suc (w_ids w)\<rparr>
      in (case z_gzip Z (content f) (gzipLevel opts) of
            None \<Rightarrow> (CompressionError, w1)
          | Some compressedData \<Rightarrow>
              let compressedSize = length compressedData;
                  beneficial = (10 * compressedSize < 9 * originalSize)
              in if beneficial then
                   (let compressed = \<lparr>basename = tempCompressedPath, content = compressedData\<rparr>
                    in (Beneficial compressed originalSize compressedSize,
                        w1\<lparr>w_temp := w_temp w1 @ [compressed]\<rparr>))
                 else (NotBeneficial, w1)))"

definition encryptFile ::
  "codecs \<Rightarrow> env \<Rightarrow> local_file \<Rightarrow> key_arg \<Rightarrow> world \<Rightarrow>
   (crypto_error + local_file \<times> bytes \<times> bytes) \<times> world" where
  "encryptFile Z E f encryptionKey w =
     (let tempEncryptedPath = ''encrypted_'' @ e_gen_id E (w_ids w) @ ''.enc'';
          w1 = w\<lparr>w_ids := Suc (w_ids w)\<rparr>
      in (case encrypt (z_crypto Z) (content f) encryptionKey None of
            Inl err \<Rightarrow> (Inl err, w1)
          | Inr encryptionResult \<Rightarrow>
              let encrypted = \<lparr>basename = tempEncryptedPath,
                               content = enc_encrypted encryptionResult\<rparr>
              in (Inr (encrypted, enc_key encryptionResult, enc_iv encryptionResult),
                  w1\<lparr>w_temp := w_temp w1 @ [encrypted]\<rparr>)))"

text \<open>
  \<open>Buffer.alloc(n)\<close> followed by \<open>fs.readSync(fd, buffer, 0, n, position)\<close>: the bytes
  read, and zeros where the file ends early.
\<close>

definition readSync :: "bytes \<Rightarrow> nat \<Rightarrow> nat \<Rightarrow> bytes" where
  "readSync data n position =
     (let got = take n (drop position data) in got @ replicate (n - length got) 0)"

text \<open>
  The loop of \<open>chunkFile\<close>, from chunk \<open>i\<close> on; \<open>ids\<close> counts the identifiers drawn.
\<close>

function chunk_loop :: "env \<Rightarrow> bytes \<Rightarrow> nat \<Rightarrow> nat \<Rightarrow> nat \<Rightarrow> nat \<Rightarrow> chunk list" where
  "chunk_loop E data chunkSize totalChunks i ids =
     (if i < totalChunks then
        (let fileSize = length data;
             start = i * chunkSize;
             endPos = min (start + chunkSize) fileSize;
             buffer = readSync data (endPos - start) start
         in \<lparr>ch_index = i, ch_id = e_gen_id E ids, ch_data = buffer, ch_size = length buffer,
              ch_hash = e_hash E buffer, ch_start = start, ch_end = endPos\<rparr>
            # chunk_loop E data chunkSize totalChunks (Suc i) (Suc ids))
      else [])"
  by pat_completeness auto
termination
  by (relation "measure (\<lambda>(E, data, chunkSize, totalChunks, i, ids). totalChunks - i)") auto

declare chunk_loop.simps [simp del]

text \<open>The descriptor the body of the loop builds for chunk \<open>j\<close>, in closed form.\<close>

definition mk_chunk :: "env \<Rightarrow> bytes \<Rightarrow> nat \<Rightarrow> nat \<Rightarrow> nat \<Rightarrow> chunk" where
  "mk_chunk E data chunkSize j ident =
     \<lparr>ch_index = j, ch_id = e_gen_id E ident,
      ch_data = readSync data (min (j * chunkSize + chunkSize) (length data) - j * chunkSize) (j * chunkSize),
      ch_size = length (readSync data (min (j * chunkSize + chunkSize) (length data) - j * chunkSize) (j * chunkSize)),
      ch_hash = e_hash E (readSync data (min (j * chunkSize + chunkSize) (length data) - j * chunkSize) (j * chunkSize)),
      ch_start = j * chunkSize, ch_end = min (j * chunkSize + chunkSize) (length data)\<rparr>"

record chunk_result =
  cr_chunks :: "chunk list"
  cr_totalChunks :: nat
  cr_originalSize :: nat

definition effectiveChunkSize :: "fp_config \<Rightarrow> process_options \<Rightarrow> nat" where
  "effectiveChunkSize cfg opts =
     (case po_chunkSize opts of
        None \<Rightarrow> cfg_chunkSize cfg
      | Some c \<Rightarrow> if c = 0 then cfg_chunkSize cfg else c)"

text \<open>
  \<open>chunkFile\<close>. \<open>Math.ceil(fileSize / chunkSize)\<close> on sizes below \<open>2^53\<close> is the
  integer ceiling \<open>(fileSize + chunkSize - 1) div chunkSize\<close>. With a chunk size of zero
  the quotient is \<open>Infinity\<close> for a non-empty file and the loop never ends: the result
  is \<open>None\<close>. (For an empty file it is \<open>NaN\<close>, the loop body never runs, and the count
  is rendered as 0.)
\<close>

definition chunkFile ::
  "env \<Rightarrow> fp_config \<Rightarrow> local_file \<Rightarrow> process_options \<Rightarrow> world \<Rightarrow> (chunk_result \<times> world) option" where
  "chunkFile E cfg f opts w =
     (let fileSize = length (content f);
          chunkSize = effectiveChunkSize cfg opts
      in if chunkSize = 0 \<and> fileSize > 0 then None
         else
           (let totalChunks = (if chunkSize = 0 then 0 else (fileSize + chunkSize - 1) div chunkSize);
                chunks = chunk_loop E (content f) chunkSize totalChunks 0 (w_ids w)
            in Some (\<lparr>cr_chunks = chunks, cr_totalChunks = totalChunks, cr_originalSize = fileSize\<rparr>,
                     w\<lparr>w_ids := w_ids w + totalChunks\<rparr>)))"

text \<open>
  \<open>reconstructFile\<close>: the chunks sorted by index (a stable sort), their files written
  one after the other; the value is the content of the output file.
\<close>

definition reconstructFile :: "chunk list \<Rightarrow> bytes" where
  "reconstructFile chunks = concat (map ch_data (sort_key ch_index chunks))"

record processing_info =
  pi_compressed :: bool
  pi_encrypted :: bool
  pi_chunks :: "chunk list"
  pi_chunked :: bool
  pi_originalSize :: nat
  pi_finalSize :: nat
  pi_encryptionKey :: "bytes option"
  pi_encryptionIv :: "bytes option"

record processed =
  pr_processingId :: string
  pr_processedPath :: local_file
  pr_originalHash :: string
  pr_finalHash :: string
  pr_processing :: processing_info

datatype process_result =
    Deduplicated string string dedup_entry
  | Processed processed

datatype process_error =
    ValidationFailed "validation_error list"
  | TransformFailed crypto_error

text \<open>Step 3 of \<open>processFile\<close>: the deduplication lookup.\<close>

definition dedup_lookup ::
  "fp_config \<Rightarrow> fp_state \<Rightarrow> string \<Rightarrow> process_options \<Rightarrow> dedup_entry option" where
  "dedup_lookup cfg st originalHash opts =
     (if cfg_enableDeduplication cfg then
        (case deduplicationCache st originalHash of
           None \<Rightarrow> None
         | Some existingFile \<Rightarrow>
             if po_allowDeduplication opts \<noteq> Some False then Some existingFile else None)
      else None)"

text \<open>
  Step 4: compression. The first component is the result of \<open>compressFile\<close> when it
  was called, the second the file processing goes on with, the third
  \<open>processing.compressed\<close>.
\<close>

definition compression_stage ::
  "codecs \<Rightarrow> env \<Rightarrow> fp_config \<Rightarrow> local_file \<Rightarrow> process_options \<Rightarrow> world \<Rightarrow>
   compress_result option \<times> local_file \<times> bool \<times> world" where
  "compression_stage Z E cfg f opts w =
     (if cfg_enableCompression cfg \<and> length (content f) > cfg_compressionThreshold cfg then
        (case compressFile Z E f opts w of
           (Beneficial compressed originalSize compressedSize, w1) \<Rightarrow>
             (Some (Beneficial compressed originalSize compressedSize), compressed, True, w1)
         | (compressionResult, w1) \<Rightarrow> (Some compressionResult, f, False, w1))
      else (None, f, False, w))"

text \<open>Step 5: encryption.\<close>

definition encryption_stage ::
  "codecs \<Rightarrow> env \<Rightarrow> fp_config \<Rightarrow> local_file \<Rightarrow> process_options \<Rightarrow> world \<Rightarrow>
   (crypto_error + local_file \<times> bool \<times> bytes option \<times> bytes option) \<times> world" where
  "encryption_stage Z E cfg f opts w =
     (if cfg_enableEncryption cfg \<and> po_encrypt opts \<noteq> Some False then
        (case encryptFile Z E f (po_encryptionKey opts) w of
           (Inl err, w1) \<Rightarrow> (Inl err, w1)
         | (Inr (encrypted, key, iv), w1) \<Rightarrow> (Inr (encrypted, True, Some key, Some iv), w1))
      else (Inr (f, False, None, None), w))"

text \<open>Step 6: chunking; \<open>None\<close> when \<open>chunkFile\<close> does not return.\<close>

definition chunking_stage ::
  "env \<Rightarrow> fp_config \<Rightarrow> local_file \<Rightarrow> process_options \<Rightarrow> world \<Rightarrow>
   (chunk list \<times> bool \<times> world) option" where
  "chunking_stage E cfg f opts w =
     (if length (content f) > cfg_chunkSize cfg then
        (case chunkFile E cfg f opts w of
           None \<Rightarrow> None
         | Some (chunkingResult, w1) \<Rightarrow> Some (cr_chunks chunkingResult, True, w1))
      else Some ([], False, w))"

text \<open>
  \<open>processFile\<close>. The processing queue and the emitted events are not modelled; a
  thrown error leaves the deduplication cache as it was.
\<close>

definition processFile ::
  "codecs \<Rightarrow> env \<Rightarrow> fp_config \<Rightarrow> fp_state \<Rightarrow> local_file \<Rightarrow> process_options \<Rightarrow> world \<Rightarrow>
   ((process_error + process_result) \<times> fp_state \<times> world) option" where
  "processFile Z E cfg st f opts w =
     (let processingId = e_gen_id E (w_ids w);
          w0 = w\<lparr>w_ids := Suc (w_ids w)\<rparr>;
          errors = validateFile Z cfg f
      in if errors \<noteq> [] then Some (Inl (ValidationFailed errors), st, w0)
         else
           (let originalHash = e_hash E (content f)
            in (case dedup_lookup cfg st originalHash opts of
                  Some existingFile \<Rightarrow>
                    Some (Inr (Deduplicated processingId originalHash existingFile), st, w0)
                | None \<Rightarrow>
                    (case compression_stage Z E cfg f opts w0 of
                       (attempt, f1, compressed, w1) \<Rightarrow>
                         (case encryption_stage Z E cfg f1 opts w1 of
                            (Inl err, w2) \<Rightarrow> Some (Inl (TransformFailed err), st, w2)
                          | (Inr (f2, encrypted, key, iv), w2) \<Rightarrow>
                              (case chunking_stage E cfg f2 opts w2 of
                                 None \<Rightarrow> None
                               | Some (chunks, chunked, w3) \<Rightarrow>
                                   let finalHash = e_hash E (content f2);
                                       processing =
                                         \<lparr>pi_compressed = compressed, pi_encrypted = encrypted,
                                          pi_chunks = chunks, pi_chunked = chunked,
                                          pi_originalSize = length (content f),
                                          pi_finalSize = length (content f2),
                                          pi_encryptionKey = key, pi_encryptionIv = iv\<rparr>;
                                       st1 =
                                         (if cfg_enableDeduplication cfg then
                                            st\<lparr>deduplicationCache :=
                                                 (deduplicationCache st)
                                                   (originalHash \<mapsto>
                                                      \<lparr>de_processingId = processingId,
                                                       de_finalHash = finalHash,
                                                       de_size = length (content f)\<rparr>)\<rparr>
                                          else st)
                                   in Some (Inr (Processed
                                              \<lparr>pr_processingId = processingId,
                                               pr_processedPath = f2,
                                               pr_originalHash = originalHash,
                                               pr_finalHash = finalHash,
                                               pr_processing = processing\<rparr>), st1, w3)))))))"

section \<open>MetadataManager\<close>

text \<open>
  The JavaScript values an \<open>encryptionKey\<close> or \<open>encryptionIv\<close> field can hold:
  \<open>undefined\<close>, \<open>null\<close>, a string, a \<open>Buffer\<close>, or the plain object
  \<open>{type: 'Buffer', data: [...]}\<close> that a \<open>Buffer\<close> becomes on the way through
  \<open>JSON.stringify\<close> and \<open>JSON.parse\<close>.
\<close>

datatype jsval = JUndefined | JNull | JString string | JBuffer bytes | JBufferJson bytes

fun truthy :: "jsval \<Rightarrow> bool" where
  "truthy JUndefined = False"
| "truthy JNull = False"
| "truthy (JString s) = (s \<noteq> [])"
| "truthy (JBuffer b) = True"
| "truthy (JBufferJson b) = True"

fun to_json :: "jsval \<Rightarrow> jsval" where
  "to_json (JBuffer b) = JBufferJson b"
| "to_json v = v"

definition REDACTED :: jsval where
  "REDACTED = JString ''[REDACTED]''"

record processing_obj =
  mp_compressed :: bool
  mp_encrypted :: bool
  mp_chunked :: bool
  mp_chunkCount :: nat
  mp_finalSize :: nat
  mp_encryptionKey :: jsval
  mp_encryptionIv :: jsval

text \<open>\<open>bc_gasUsed\<close> is \<open>None\<close> once the property has been deleted.\<close>

record blockchain_obj =
  bc_transactionHash :: jsval
  bc_confirmed :: bool
  bc_gasUsed :: "jsval option"

record system_info =
  sy_uploadedFrom :: string
  sy_userAgent :: string

record version_entry =
  ve_version :: nat
  ve_changes :: string
  ve_hash :: string
  ve_size :: nat

text \<open>
  A metadata record. Its \<open>processing\<close> and \<open>blockchain\<close> members are objects of their
  own: in the store (type \<open>stored_metadata\<close>) the record holds references to them, and a
  shallow copy of the record (\<open>{ ...metadata }\<close>) shares them with the original. The
  same record with the two objects in place (type \<open>metadata_value\<close>) is what is written
  to disk and what a reader of the record sees. The members \<open>file\<close>, \<open>storage\<close> and
  \<open>access\<close>, which \<open>getMetadata\<close> never writes to, are flattened into the record.
\<close>

record ('p, 'b) metadata =
  md_fileId :: string
  md_version :: nat
  md_originalName :: string
  md_size :: nat
  md_hash :: string
  md_primary :: "string \<times> string"
  md_backups :: "(string \<times> string) list"
  md_owner :: string
  md_processing :: "'p option"
  md_blockchain :: "'b option"
  md_system :: "system_info option"
  md_versionHistory :: "version_entry list option"

type_synonym stored_metadata = "(nat, nat) metadata"

type_synonym metadata_value = "(processing_obj, blockchain_obj) metadata"

record heap =
  hp_processing :: "nat \<Rightarrow> processing_obj option"
  hp_blockchain :: "nat \<Rightarrow> blockchain_obj option"
  hp_next :: nat

record mm_state =
  metadataCache :: "string \<Rightarrow> stored_metadata option"
  versionHistory :: "string \<Rightarrow> version_entry list option"
  mm_heap :: heap
  mm_disk :: "string \<Rightarrow> metadata_value option"
  mm_enableVersioning :: bool

text \<open>The record as a reader sees it: every reference followed.\<close>

definition view :: "heap \<Rightarrow> stored_metadata \<Rightarrow> metadata_value" where
  "view h m =
     \<lparr>md_fileId = md_fileId m, md_version = md_version m,
      md_originalName = md_originalName m, md_size = md_size m, md_hash = md_hash m,
      md_primary = md_primary m, md_backups = md_backups m, md_owner = md_owner m,
      md_processing = (case md_processing m of None \<Rightarrow> None | Some a \<Rightarrow> hp_processing h a),
      md_blockchain = (case md_blockchain m of None \<Rightarrow> None | Some a \<Rightarrow> hp_blockchain h a),
      md_system = md_system m, md_versionHistory = md_versionHistory m\<rparr>"

text \<open>\<open>JSON.stringify\<close> of a record: a \<open>Buffer\<close> becomes its JSON object.\<close>

definition stringify :: "metadata_value \<Rightarrow> metadata_value" where
  "stringify v =
     v\<lparr>md_processing :=
          (case md_processing v of
             None \<Rightarrow> None
           | Some p \<Rightarrow> Some (p\<lparr>mp_encryptionKey := to_json (mp_encryptionKey p),
                               mp_encryptionIv := to_json (mp_encryptionIv p)\<rparr>))\<rparr>"

definition persistMetadata :: "mm_state \<Rightarrow> string \<Rightarrow> stored_metadata \<Rightarrow> mm_state" where
  "persistMetadata st fileId m =
     st\<lparr>mm_disk := (mm_disk st)(fileId \<mapsto> stringify (view (mm_heap st) m))\<rparr>"

text \<open>\<open>JSON.parse\<close> of a stored record: the nested objects are fresh.\<close>

definition parse :: "heap \<Rightarrow> metadata_value \<Rightarrow> stored_metadata \<times> heap" where
  "parse h v =
     (let a = hp_next h;
          b = Suc (hp_next h)
      in (\<lparr>md_fileId = md_fileId v, md_version = md_version v,
           md_originalName = md_originalName v, md_size = md_size v, md_hash = md_hash v,
           md_primary = md_primary v, md_backups = md_backups v, md_owner = md_owner v,
           md_processing = (case md_processing v of None \<Rightarrow> None | Some p \<Rightarrow> Some a),
           md_blockchain = (case md_blockchain v of None \<Rightarrow> None | Some c \<Rightarrow> Some b),
           md_system = md_system v, md_versionHistory = md_versionHistory v\<rparr>,
          h\<lparr>hp_processing := (hp_processing h)(a := md_processing v),
            hp_blockchain := (hp_blockchain h)(b := md_blockchain v),
            hp_next := Suc (Suc (hp_next h))\<rparr>))"

definition loadMetadataFromDisk :: "mm_state \<Rightarrow> string \<Rightarrow> (stored_metadata \<times> mm_state) option" where
  "loadMetadataFromDisk st fileId =
     (case mm_disk st fileId of
        None \<Rightarrow> None
      | Some v \<Rightarrow>
          (case parse (mm_heap st) v of
             (m, h) \<Rightarrow> Some (m, st\<lparr>mm_heap := h\<rparr>)))"

record meta_options =
  mo_includeSecrets :: bool
  mo_accessLevel :: "string option"
  mo_includeVersions :: bool

datatype meta_error = TypeError string

text \<open>
  The two assignments of \<open>filterMetadata\<close> under \<open>!options.includeSecrets\<close>. They go
  through \<open>filteredMetadata.processing\<close>, the object the copy shares with the record it
  was copied from.
\<close>

definition redact_secrets :: "heap \<Rightarrow> nat option \<Rightarrow> heap" where
  "redact_secrets h r =
     (case r of
        None \<Rightarrow> h
      | Some a \<Rightarrow>
          (case hp_processing h a of
             None \<Rightarrow> h
           | Some p \<Rightarrow>
               let p1 = (if truthy (mp_encryptionKey p) then p\<lparr>mp_encryptionKey := REDACTED\<rparr> else p);
                   p2 = (if truthy (mp_encryptionIv p1) then p1\<lparr>mp_encryptionIv := REDACTED\<rparr> else p1)
               in h\<lparr>hp_processing := (hp_processing h)(a \<mapsto> p2)\<rparr>))"

text \<open>\<open>options.accessLevel && options.accessLevel !== 'admin'\<close>.\<close>

definition restrictedAccess :: "meta_options \<Rightarrow> bool" where
  "restrictedAccess opts =
     (case mo_accessLevel opts of
        None \<Rightarrow> False
      | Some l \<Rightarrow> l \<noteq> [] \<and> l \<noteq> ''admin'')"

definition filterMetadata ::
  "mm_state \<Rightarrow> stored_metadata option \<Rightarrow> meta_options \<Rightarrow>
   (meta_error + stored_metadata option) \<times> mm_state" where
  "filterMetadata st metadata opts =
     (case metadata of
        None \<Rightarrow> (Inr None, st)
      | Some m \<Rightarrow>
          let filteredMetadata = m;
              h1 = (if \<not> mo_includeSecrets opts
                    then redact_secrets (mm_heap st) (md_processing filteredMetadata)
                    else mm_heap st);
              restricted = restrictedAccess opts
          in if restricted \<and> md_blockchain filteredMetadata = None
             then (Inl (TypeError ''gasUsed''), st\<lparr>mm_heap := h1\<rparr>)
             else
               let filtered1 = (if restricted then filteredMetadata\<lparr>md_system := None\<rparr>
                                else filteredMetadata);
                   h2 = (if restricted then
                           (case md_blockchain filteredMetadata of
                              None \<Rightarrow> h1
                            | Some b \<Rightarrow>
                                (case hp_blockchain h1 b of
                                   None \<Rightarrow> h1
                                 | Some c \<Rightarrow>
                                     h1\<lparr>hp_blockchain :=
                                          (hp_blockchain h1)(b \<mapsto> c\<lparr>bc_gasUsed := None\<rparr>)\<rparr>))
                         else h1);
                   filtered2 = (if mo_includeVersions opts
                                   \<and> versionHistory st (md_fileId m) \<noteq> None
                                then filtered1\<lparr>md_versionHistory := versionHistory st (md_fileId m)\<rparr>
                                else filtered1)
               in (Inr (Some filtered2), st\<lparr>mm_heap := h2\<rparr>))"

definition getMetadata ::
  "mm_state \<Rightarrow> string \<Rightarrow> meta_options \<Rightarrow> (meta_error + stored_metadata option) \<times> mm_state" where
  "getMetadata st fileId opts =
     (case metadataCache st fileId of
        Some metadata \<Rightarrow> filterMetadata st (Some metadata) opts
      | None \<Rightarrow>
          (case loadMetadataFromDisk st fileId of
             None \<Rightarrow> (Inr None, st)
           | Some (loadedMetadata, st1) \<Rightarrow>
               filterMetadata
                 (st1\<lparr>metadataCache := (metadataCache st1)(fileId \<mapsto> loadedMetadata)\<rparr>)
                 (Some loadedMetadata) opts))"

text \<open>
  The record \<open>getMetadata\<close> will find for a file id: the cached one, or else the one
  on disk.
\<close>

definition stored_record :: "mm_state \<Rightarrow> string \<Rightarrow> metadata_value option" where
  "stored_record st fileId =
     (case metadataCache st fileId of
        Some m \<Rightarrow> Some (view (mm_heap st) m)
      | None \<Rightarrow> mm_disk st fileId)"

text \<open>What a reader finds in the \<open>processing\<close> member of a record.\<close>

definition processing_of :: "mm_state \<Rightarrow> stored_metadata \<Rightarrow> processing_obj option" where
  "processing_of st m = md_processing (view (mm_heap st) m)"

section \<open>Concrete inputs\<close>

text \<open>
  Inputs on which the model is run. The digest is a parameter of the model; the runs
  below use a stand-in that maps every byte to one character, and none of them depends
  on more than on two different byte strings having different digests.
\<close>

definition demo_hash :: "bytes \<Rightarrow> string" where
  "demo_hash bs = map (\<lambda>b. if b = 0 then CHR ''0'' else CHR ''1'') bs"

definition demo_id :: "nat \<Rightarrow> string" where
  "demo_id n = ''id'' @ replicate n CHR ''i''"

definition env_ok :: env where
  "env_ok = \<lparr>e_hash = demo_hash, e_gen_id = demo_id, e_s3_error = (\<lambda>n. None)\<rparr>"

definition storj_connected :: provider where
  "storj_connected = \<lparr>p_kind = StorjProvider, p_isConnected = True\<rparr>"

definition arweave_connected :: provider where
  "arweave_connected = \<lparr>p_kind = ArweaveProvider, p_isConnected = True\<rparr>"

definition pm_healthy :: provider_manager where
  "pm_healthy =
     \<lparr>providers = [(''storj'', storj_connected), (''arweave'', arweave_connected)],
      healthStatus = [(''storj'', \<lparr>h_status = ''healthy''\<rparr>), (''arweave'', \<lparr>h_status = ''healthy''\<rparr>)],
      failoverEnabled = True\<rparr>"

definition pm_unhealthy :: provider_manager where
  "pm_unhealthy =
     \<lparr>providers = [(''storj'', storj_connected), (''arweave'', arweave_connected)],
      healthStatus = [(''storj'', \<lparr>h_status = ''unhealthy''\<rparr>), (''arweave'', \<lparr>h_status = ''unhealthy''\<rparr>)],
      failoverEnabled = True\<rparr>"

definition hello :: bytes where
  "hello = [104, 101, 108, 108, 111]"

definition hello_file :: local_file where
  "hello_file = \<lparr>basename = ''hello.txt'', content = hello\<rparr>"

definition no_flags :: options where
  "no_flags = \<lparr>permanent = False, critical = False, createBackup = None,
                originalName = Some ''hello.txt'', prefix = None\<rparr>"

definition world0 :: world where
  "world0 = \<lparr>w_ids = 0, w_puts = [], w_temp = []\<rparr>"

definition corrupted :: bytes where
  "corrupted = [104, 0, 108, 108, 111]"

text \<open>
  A store in which the Storj copy of \<open>f1\<close> is corrupted (its body no longer has the
  recorded hash) and the Arweave copy is intact.
\<close>

definition store_storj_corrupt :: object_store where
  "store_storj_corrupt =
     (\<lambda>k key.
        if k = StorjProvider \<and> key = ''uploads/f1''
          then Some \<lparr>o_body = corrupted, o_file_hash = Some (demo_hash hello)\<rparr>
        else if k = ArweaveProvider \<and> key = ''permanent/f1''
          then Some \<lparr>o_body = hello, o_file_hash = Some (demo_hash hello)\<rparr>
        else None)"

definition lenient :: download_options where
  "lenient = \<lparr>d_originalName = None, d_strictIntegrity = False\<rparr>"

definition strict :: download_options where
  "strict = \<lparr>d_originalName = None, d_strictIntegrity = True\<rparr>"

text \<open>
  A stand-in for the cipher: it shifts every byte by one and issues a constant 16-byte
  tag, which the decipher checks.
\<close>

definition demo_crypto :: crypto where
  "demo_crypto =
     \<lparr>c_randomBytes = (\<lambda>n. replicate n 9),
      c_scrypt = (\<lambda>s. replicate 32 7),
      c_cipher = (\<lambda>k v d. (map (\<lambda>b. b + 1) d, replicate 16 0)),
      c_decipher = (\<lambda>k v t c. if t = replicate 16 0 then Some (map (\<lambda>b. b - 1) c) else None)\<rparr>"

text \<open>
  A configuration with small thresholds, so that the five bytes of \<open>hello\<close> are above
  the compression threshold and span three chunks of two bytes.
\<close>

definition cfg_small :: fp_config where
  "cfg_small =
     \<lparr>cfg_maxFileSize = 1024, cfg_chunkSize = 2, cfg_compressionThreshold = 3,
      cfg_enableCompression = True, cfg_enableEncryption = True,
      cfg_enableDeduplication = True\<rparr>"

definition popts_default :: process_options where
  "popts_default =
     \<lparr>po_allowDeduplication = None, po_encrypt = None, po_encryptionKey = NoKey,
      po_compressionLevel = None, po_chunkSize = None\<rparr>"

text \<open>
  Stand-in codecs: the compressor keeps the first two bytes of an input longer than four
  bytes and lengthens any other input by one byte; no file name is rejected.
\<close>

definition demo_codecs :: codecs where
  "demo_codecs =
     \<lparr>z_gzip = (\<lambda>bs level. if length bs > 4 then Some (take 2 bs) else Some (bs @ [0])),
      z_crypto = demo_crypto,
      z_nameChecks = (\<lambda>n. [])\<rparr>"

definition hell_file :: local_file where
  "hell_file = \<lparr>basename = ''hell.txt'', content = [104, 101, 108, 108]\<rparr>"

definition fp_empty :: fp_state where
  "fp_empty = \<lparr>deduplicationCache = (\<lambda>h. None)\<rparr>"

text \<open>
  A metadata store whose cache holds one record, \<open>f1\<close>, with a 3-byte key and a 2-byte
  IV in its \<open>processing\<close> object (at address 0) and its \<open>blockchain\<close> object at address 1.
\<close>

definition secret_processing :: processing_obj where
  "secret_processing =
     \<lparr>mp_compressed = False, mp_encrypted = True, mp_chunked = False, mp_chunkCount = 0,
      mp_finalSize = 37, mp_encryptionKey = JBuffer [1, 2, 3], mp_encryptionIv = JBuffer [4, 5]\<rparr>"

definition record_f1 :: stored_metadata where
  "record_f1 =
     \<lparr>md_fileId = ''f1'', md_version = 1, md_originalName = ''hello.txt'', md_size = 5,
      md_hash = ''11111'', md_primary = (''Storj'', ''uploads/f1-hello.txt''), md_backups = [],
      md_owner = ''anonymous'', md_processing = Some 0, md_blockchain = Some 1,
      md_system = Some \<lparr>sy_uploadedFrom = ''unknown'', sy_userAgent = ''unknown''\<rparr>,
      md_versionHistory = None\<rparr>"

definition mm_one :: mm_state where
  "mm_one =
     \<lparr>metadataCache = (\<lambda>k. if k = ''f1'' then Some record_f1 else None),
      versionHistory = (\<lambda>k. None),
      mm_heap =
        \<lparr>hp_processing = (\<lambda>a. if a = 0 then Some secret_processing else None),
         hp_blockchain =
           (\<lambda>a. if a = 1
                then Some \<lparr>bc_transactionHash = JNull, bc_confirmed = False, bc_gasUsed = Some JNull\<rparr>
                else None),
         hp_next = 2\<rparr>,
      mm_disk = (\<lambda>k. None),
      mm_enableVersioning = True\<rparr>"

definition plain_read :: meta_options where
  "plain_read = \<lparr>mo_includeSecrets = False, mo_accessLevel = None, mo_includeVersions = False\<rparr>"

definition secret_read :: meta_options where
  "secret_read = \<lparr>mo_includeSecrets = True, mo_accessLevel = None, mo_includeVersions = False\<rparr>"


text \<open>Storj marked unhealthy by the last health check, Arweave healthy.\<close>

definition pm_storj_down :: provider_manager where
  "pm_storj_down =
     \<lparr>providers = [(''storj'', storj_connected), (''arweave'', arweave_connected)],
      healthStatus = [(''storj'', \<lparr>h_status = ''unhealthy''\<rparr>), (''arweave'', \<lparr>h_status = ''healthy''\<rparr>)],
      failoverEnabled = True\<rparr>"




section \<open>Strategy selection\<close>

lemma selectStrategy_small:
  "fileSize < 10 * 1024 * 1024 \<Longrightarrow>
   selectStrategy pm fileSize opts =
     \<lparr>st_name = ''small'',
      st_primary = (if isProviderHealthy pm ''storj'' then Some ''storj''
                    else if isProviderHealthy pm ''arweave'' then Some ''arweave'' else None),
      st_backup = (if isProviderHealthy pm ''arweave'' then Some ''arweave'' else None),
      st_primaryProvider = map_of (providers pm) ''storj'',
      st_backupProvider = map_of (providers pm) ''arweave''\<rparr>"
  by (simp add: selectStrategy_def defineUploadStrategies_def providers_get_def)

lemma selectStrategy_medium:
  "10 * 1024 * 1024 \<le> fileSize \<Longrightarrow> fileSize < 100 * 1024 * 1024 \<Longrightarrow>
   selectStrategy pm fileSize opts =
     \<lparr>st_name = ''medium'',
      st_primary = (if isProviderHealthy pm ''storj'' then Some ''storj'' else None),
      st_backup = None,
      st_primaryProvider = map_of (providers pm) ''storj'',
      st_backupProvider = None\<rparr>"
  by (simp add: selectStrategy_def defineUploadStrategies_def providers_get_def)

lemma selectStrategy_large:
  "100 * 1024 * 1024 \<le> fileSize \<Longrightarrow>
   selectStrategy pm fileSize opts =
     \<lparr>st_name = ''large'',
      st_primary = (if isProviderHealthy pm ''storj'' then Some ''storj'' else None),
      st_backup = None,
      st_primaryProvider = map_of (providers pm) ''storj'',
      st_backupProvider = None\<rparr>"
  by (simp add: selectStrategy_def defineUploadStrategies_def providers_get_def)

text \<open>
  C1. The claim: with \<open>permanent = true\<close> the archival backend (arweave) is the primary
  placement whatever the size. On the code the three size buckets are inserted first and
  cover every size, so the \<open>permanent\<close> and \<open>critical\<close> entries are never reached: the
  strategy is named after a size bucket and its nominal primary is storj for every size
  and every option value. Arweave becomes the selected primary only as the health
  fallback of the small bucket.
\<close>

theorem C1_permanent_flag_never_reaches_permanent_strategy:
  "st_name (selectStrategy pm fileSize opts) =
     (if fileSize < 10 * 1024 * 1024 then ''small''
      else if fileSize < 100 * 1024 * 1024 then ''medium'' else ''large'')
   \<and> st_primaryProvider (selectStrategy pm fileSize opts) = map_of (providers pm) ''storj''
   \<and> st_primary (selectStrategy pm fileSize opts) =
     (if isProviderHealthy pm ''storj'' then Some ''storj''
      else if fileSize < 10 * 1024 * 1024 \<and> isProviderHealthy pm ''arweave'' then Some ''arweave''
      else None)"
proof -
  consider (small) "fileSize < 10 * 1024 * 1024"
    | (medium) "10 * 1024 * 1024 \<le> fileSize" "fileSize < 100 * 1024 * 1024"
    | (large) "100 * 1024 * 1024 \<le> fileSize"
    by linarith
  then show ?thesis
  proof cases
    case small
    then show ?thesis by (simp add: selectStrategy_small)
  next
    case medium
    then show ?thesis by (simp add: selectStrategy_medium)
  next
    case large
    then show ?thesis by (simp add: selectStrategy_large)
  qed
qed

section \<open>Upload\<close>

lemmas demo_defs = env_ok_def storj_connected_def arweave_connected_def pm_healthy_def
  pm_unhealthy_def pm_storj_down_def hello_def hello_file_def no_flags_def world0_def
  demo_hash_def demo_id_def

lemmas upload_defs = primary_upload_def backup_upload_def provider_upload_def
  upload_key_def selectStrategy_def defineUploadStrategies_def providers_get_def
  isProviderHealthy_def maxFileSize_def Let_def

lemma provider_upload_ok_provider:
  "provider_upload E p f opts w = (Inr r, w1) \<Longrightarrow> r_provider r = p_name p"
  by (auto simp: provider_upload_def Let_def split: if_splits option.splits)

text \<open>
  What the block around the primary put does with a failed primary put, a backup
  provider and failover enabled: the backup provider's result, when there is one,
  stands for the primary's, and two failures are combined. (\<open>upload\<close> never reaches
  the block: see below.)
\<close>

lemma primary_upload_failover:
  assumes "st_primaryProvider st = Some p"
      and "provider_upload E p f opts w = (Inl e, w1)"
      and "st_backupProvider st = Some b"
      and "failoverEnabled pm"
  shows "provider_upload E b f opts w1 = (Inr br, w2) \<Longrightarrow>
           primary_upload E pm st f opts w = (Inr br, w2)"
    and "provider_upload E b f opts w1 = (Inl be, w2) \<Longrightarrow>
           primary_upload E pm st f opts w = (Inl (BothFailed e be), w2)"
  using assms by (simp_all add: primary_upload_def)

text \<open>
  C4. The claim: when the primary put fails, a backup is configured and failover is
  enabled, the backup is attempted, its success becomes the caller-visible primary, and
  two failures surface as one combined error. On the code \<open>upload\<close> evaluates
  \<open>require\<close> in its first statement, in a module that binds no such name: every call,
  whatever the backends would answer, throws a \<open>ReferenceError\<close> before a strategy is
  selected, and the world, with the list of puts in it, is as it was. No primary put is
  attempted, no backup is tried and no combined error is built.
\<close>

theorem C4_upload_throws_before_any_put:
  "upload E pm f opts w = (Inl (ReferenceError ''require''), w)"
  by (simp add: upload_def module_scope_def)

text \<open>
  C3. The claim: with the nominal primary unhealthy the upload falls back to the
  healthy backup, and with no healthy backend it fails with a no-backend-available
  error. On the code, with Storj unhealthy and Arweave healthy, \<open>selectStrategy\<close> does
  name arweave as the primary to use, but \<open>upload\<close> throws the \<open>ReferenceError\<close> of its
  first statement and stores nothing; with both unhealthy it throws the same error, not
  the no-backend one. (The provider object \<open>selectStrategy\<close> hands to \<open>upload\<close> as
  \<open>primaryProvider\<close> is Storj's in both cases: it is looked up from the nominal primary,
  whatever its health.)
\<close>

theorem C3_unhealthy_primary_upload_throws:
  "\<not> isProviderHealthy pm_storj_down ''storj'' \<and> isProviderHealthy pm_storj_down ''arweave''
   \<and> st_primary (selectStrategy pm_storj_down (length (content hello_file)) no_flags) = Some ''arweave''
   \<and> st_primaryProvider (selectStrategy pm_storj_down (length (content hello_file)) no_flags)
       = Some storj_connected
   \<and> upload env_ok pm_storj_down hello_file no_flags world0 = (Inl (ReferenceError ''require''), world0)
   \<and> w_puts world0 = []
   \<and> st_primary (selectStrategy pm_unhealthy (length (content hello_file)) no_flags) = None
   \<and> st_primaryProvider (selectStrategy pm_unhealthy (length (content hello_file)) no_flags)
       = Some storj_connected
   \<and> upload env_ok pm_unhealthy hello_file no_flags world0 = (Inl (ReferenceError ''require''), world0)"
  by (simp add: upload_def module_scope_def upload_defs demo_defs)

section \<open>Download: integrity on read\<close>

lemmas download_defs = download_def provider_download_def generatePossibleKeys_def
  isProviderHealthy_def Let_def

lemma try_keys_Some:
  "try_keys E store p keys opts = Some r \<Longrightarrow>
   \<exists>ks1 k ks2. keys = ks1 @ k # ks2 \<and> provider_download E store p k opts = Inr r
      \<and> (\<forall>k' \<in> set ks1. isl (provider_download E store p k' opts))"
proof (induction keys)
  case Nil
  then show ?case by simp
next
  case (Cons key keys)
  show ?case
  proof (cases "provider_download E store p key opts")
    case (Inr res)
    with Cons.prems have "res = r" by simp
    with Inr have "key # keys = [] @ key # keys \<and> provider_download E store p key opts = Inr r
      \<and> (\<forall>k' \<in> set []. isl (provider_download E store p k' opts))" by simp
    then show ?thesis by blast
  next
    case (Inl err)
    with Cons.prems have "try_keys E store p keys opts = Some r" by simp
    from Cons.IH[OF this] obtain ks1 k ks2 where
      h: "keys = ks1 @ k # ks2" "provider_download E store p k opts = Inr r"
         "\<forall>k' \<in> set ks1. isl (provider_download E store p k' opts)" by blast
    with Inl have "key # keys = (key # ks1) @ k # ks2 \<and> provider_download E store p k opts = Inr r
      \<and> (\<forall>k' \<in> set (key # ks1). isl (provider_download E store p k' opts))" by simp
    then show ?thesis by blast
  qed
qed

lemma try_keys_None:
  "(try_keys E store p keys opts = None) = (\<forall>k \<in> set keys. isl (provider_download E store p k opts))"
  by (induction keys) (auto split: sum.splits)

lemma download_loop_Inr:
  "download_loop E pm store ps fileId opts att = Inr r \<Longrightarrow>
   \<exists>ps1 n p ps2. ps = ps1 @ (n, p) # ps2 \<and> isProviderHealthy pm n
      \<and> try_keys E store p (generatePossibleKeys fileId opts) opts = Some r
      \<and> (\<forall>(n', p') \<in> set ps1. isProviderHealthy pm n' \<longrightarrow>
            try_keys E store p' (generatePossibleKeys fileId opts) opts = None)"
proof (induction ps)
  case Nil
  then show ?case by simp
next
  case (Cons np ps)
  obtain n p where np: "np = (n, p)" by (cases np)
  let ?t = "try_keys E store p (generatePossibleKeys fileId opts) opts"
  show ?case
  proof (cases "isProviderHealthy pm n \<and> ?t \<noteq> None")
    case True
    with Cons.prems np have "?t = Some r" by (auto split: option.splits)
    with True np have "np # ps = [] @ (n, p) # ps \<and> isProviderHealthy pm n \<and> ?t = Some r
      \<and> (\<forall>(n', p') \<in> set []. isProviderHealthy pm n' \<longrightarrow>
            try_keys E store p' (generatePossibleKeys fileId opts) opts = None)" by simp
    then show ?thesis by blast
  next
    case False
    with Cons.prems np have "download_loop E pm store ps fileId opts att = Inr r"
      by (auto split: option.splits if_splits)
    from Cons.IH[OF this] obtain ps1 n1 p1 ps2 where
      h: "ps = ps1 @ (n1, p1) # ps2" "isProviderHealthy pm n1"
         "try_keys E store p1 (generatePossibleKeys fileId opts) opts = Some r"
         "\<forall>(n', p') \<in> set ps1. isProviderHealthy pm n' \<longrightarrow>
            try_keys E store p' (generatePossibleKeys fileId opts) opts = None" by blast
    with False np have "np # ps = (np # ps1) @ (n1, p1) # ps2 \<and> isProviderHealthy pm n1
      \<and> try_keys E store p1 (generatePossibleKeys fileId opts) opts = Some r
      \<and> (\<forall>(n', p') \<in> set (np # ps1). isProviderHealthy pm n' \<longrightarrow>
            try_keys E store p' (generatePossibleKeys fileId opts) opts = None)" by auto
    then show ?thesis by blast
  qed
qed

lemma download_loop_isl:
  "isl (download_loop E pm store ps fileId opts att) =
    (\<forall>(n, p) \<in> set ps. isProviderHealthy pm n \<longrightarrow>
      try_keys E store p (generatePossibleKeys fileId opts) opts = None)"
proof (induction ps)
  case Nil
  then show ?case by simp
next
  case (Cons np ps)
  obtain n p where np: "np = (n, p)" by (cases np)
  show ?case
  proof (cases "isProviderHealthy pm n")
    case True
    then show ?thesis
      using Cons.IH np
      by (cases "try_keys E store p (generatePossibleKeys fileId opts) opts") simp_all
  next
    case False
    then show ?thesis using Cons.IH np by simp
  qed
qed

text \<open>
  The error of a failed download carries the attempts list the loop was started with,
  and \<open>download\<close> starts it with the empty list: no cause of any candidate is in it.
\<close>

lemma download_loop_Inl:
  "download_loop E pm store ps fileId opts att = Inl e \<Longrightarrow> e = AllProvidersFailed att"
  by (induction ps) (auto split: option.splits if_splits)

lemma download_error_has_no_causes:
  "download E pm store fileId opts = Inl e \<Longrightarrow> e = AllProvidersFailed []"
  by (simp add: download_def download_loop_Inl)

lemma provider_download_strict_Inr:
  "d_strictIntegrity opts \<Longrightarrow> provider_download E store p k opts = Inr r \<Longrightarrow>
   \<exists>obj. store (p_kind p) k = Some obj \<and> o_file_hash obj = Some (e_hash E (o_body obj))
      \<and> dr_body r = o_body obj \<and> dr_integrity r"
  by (auto simp: provider_download_def Let_def split: if_splits option.splits)

lemma provider_download_strict_mismatch:
  "d_strictIntegrity opts \<Longrightarrow> store (p_kind p) k = Some obj \<Longrightarrow>
   o_file_hash obj \<noteq> Some (e_hash E (o_body obj)) \<Longrightarrow> isl (provider_download E store p k opts)"
  by (auto simp: provider_download_def Let_def)

text \<open>
  C5 as amended: for a download called with \<open>strictIntegrity\<close> set. The candidates are
  the healthy providers in \<open>Map\<close> order, each with the candidate keys in order. A
  successful download returns the bytes of a stored object whose re-computed hash equals
  its recorded hash, from the first candidate that does not fail (every earlier key of
  that provider and every key of every earlier healthy provider failed); an object whose
  bytes do not hash to the recorded hash makes its candidate fail; and the download fails
  exactly when every candidate fails.
\<close>

theorem C5_download_strict_integrity:
  assumes strict: "d_strictIntegrity opts"
  shows "(\<forall>r. download E pm store fileId opts = Inr r \<longrightarrow>
            (\<exists>ps1 n p ps2 ks1 k ks2 obj.
               providers pm = ps1 @ (n, p) # ps2
               \<and> generatePossibleKeys fileId opts = ks1 @ k # ks2
               \<and> isProviderHealthy pm n
               \<and> store (p_kind p) k = Some obj
               \<and> o_file_hash obj = Some (e_hash E (o_body obj))
               \<and> dr_body r = o_body obj \<and> dr_integrity r
               \<and> (\<forall>k' \<in> set ks1. isl (provider_download E store p k' opts))
               \<and> (\<forall>(n', p') \<in> set ps1. isProviderHealthy pm n' \<longrightarrow>
                     (\<forall>k' \<in> set (generatePossibleKeys fileId opts).
                        isl (provider_download E store p' k' opts)))))
       \<and> (\<forall>p k obj. store (p_kind p) k = Some obj
              \<and> o_file_hash obj \<noteq> Some (e_hash E (o_body obj))
            \<longrightarrow> isl (provider_download E store p k opts))
       \<and> (isl (download E pm store fileId opts) =
            (\<forall>(n, p) \<in> set (providers pm). isProviderHealthy pm n \<longrightarrow>
               (\<forall>k \<in> set (generatePossibleKeys fileId opts).
                  isl (provider_download E store p k opts))))"
proof (intro conjI allI impI)
  fix r
  assume ok: "download E pm store fileId opts = Inr r"
  let ?keys = "generatePossibleKeys fileId opts"
  from ok have "download_loop E pm store (providers pm) fileId opts [] = Inr r"
    by (simp add: download_def)
  from download_loop_Inr[OF this] obtain ps1 n p ps2 where
    h: "providers pm = ps1 @ (n, p) # ps2" "isProviderHealthy pm n"
       "try_keys E store p ?keys opts = Some r"
       "\<forall>(n', p') \<in> set ps1. isProviderHealthy pm n' \<longrightarrow> try_keys E store p' ?keys opts = None"
    by blast
  from try_keys_Some[OF h(3)] obtain ks1 k ks2 where
    k: "?keys = ks1 @ k # ks2" "provider_download E store p k opts = Inr r"
       "\<forall>k' \<in> set ks1. isl (provider_download E store p k' opts)" by blast
  from provider_download_strict_Inr[OF strict k(2)] obtain obj where
    o: "store (p_kind p) k = Some obj" "o_file_hash obj = Some (e_hash E (o_body obj))"
       "dr_body r = o_body obj" "dr_integrity r" by blast
  from h(4) have earlier: "\<forall>(n', p') \<in> set ps1. isProviderHealthy pm n' \<longrightarrow>
       (\<forall>k' \<in> set ?keys. isl (provider_download E store p' k' opts))"
    by (simp add: try_keys_None)
  from h(1,2) k(1,3) o earlier
  show "\<exists>ps1 n p ps2 ks1 k ks2 obj.
               providers pm = ps1 @ (n, p) # ps2
               \<and> generatePossibleKeys fileId opts = ks1 @ k # ks2
               \<and> isProviderHealthy pm n
               \<and> store (p_kind p) k = Some obj
               \<and> o_file_hash obj = Some (e_hash E (o_body obj))
               \<and> dr_body r = o_body obj \<and> dr_integrity r
               \<and> (\<forall>k' \<in> set ks1. isl (provider_download E store p k' opts))
               \<and> (\<forall>(n', p') \<in> set ps1. isProviderHealthy pm n' \<longrightarrow>
                     (\<forall>k' \<in> set (generatePossibleKeys fileId opts).
                        isl (provider_download E store p' k' opts)))"
    by blast
next
  fix p :: provider and k obj
  assume "store (p_kind p) k = Some obj \<and> o_file_hash obj \<noteq> Some (e_hash E (o_body obj))"
  then show "isl (provider_download E store p k opts)"
    using provider_download_strict_mismatch[OF strict] by blast
next
  show "isl (download E pm store fileId opts) =
            (\<forall>(n, p) \<in> set (providers pm). isProviderHealthy pm n \<longrightarrow>
               (\<forall>k \<in> set (generatePossibleKeys fileId opts).
                  isl (provider_download E store p k opts)))"
    by (simp add: download_def download_loop_isl try_keys_None)
qed

text \<open>
  C5 as stated fails without \<open>strictIntegrity\<close> (the default of \<open>download\<close>): the Storj
  copy is corrupted, the Arweave copy intact, and the download returns the corrupted
  bytes with \<open>integrity = false\<close>.
\<close>

theorem C5_lenient_download_returns_corrupt_bytes:
  "download env_ok pm_healthy store_storj_corrupt ''f1'' lenient =
     Inr \<lparr>dr_provider = ''Storj'', dr_size = 5, dr_hash = demo_hash corrupted,
          dr_integrity = False, dr_body = corrupted\<rparr>
   \<and> store_storj_corrupt StorjProvider ''uploads/f1''
       = Some \<lparr>o_body = corrupted, o_file_hash = Some (demo_hash hello)\<rparr>
   \<and> demo_hash corrupted \<noteq> demo_hash hello"
  by (simp add: download_defs demo_defs store_storj_corrupt_def lenient_def corrupted_def)

text \<open>
  C5 as amended, at the same store with \<open>strictIntegrity\<close>: the corrupted Storj copy is
  a failed candidate, the download returns the intact Arweave copy, and with no healthy
  provider it fails.
\<close>

theorem C5_download_strict_integrity_witness:
  "d_strictIntegrity strict
   \<and> isl (provider_download env_ok store_storj_corrupt storj_connected ''uploads/f1'' strict)
   \<and> download env_ok pm_healthy store_storj_corrupt ''f1'' strict =
       Inr \<lparr>dr_provider = ''Arweave'', dr_size = 5, dr_hash = demo_hash hello,
            dr_integrity = True, dr_body = hello\<rparr>
   \<and> \<not> isl (download env_ok pm_healthy store_storj_corrupt ''f1'' strict)
   \<and> isl (download env_ok pm_unhealthy store_storj_corrupt ''f1'' strict)"
proof -
  have s: "d_strictIntegrity strict" by (simp add: strict_def)
  have st: "store_storj_corrupt (p_kind storj_connected) ''uploads/f1''
              = Some \<lparr>o_body = corrupted, o_file_hash = Some (demo_hash hello)\<rparr>
            \<and> o_file_hash \<lparr>o_body = corrupted, o_file_hash = Some (demo_hash hello)\<rparr>
               \<noteq> Some (e_hash env_ok (o_body \<lparr>o_body = corrupted, o_file_hash = Some (demo_hash hello)\<rparr>))"
    by (simp add: demo_defs store_storj_corrupt_def corrupted_def)
  have a: "isl (provider_download env_ok store_storj_corrupt storj_connected ''uploads/f1'' strict)"
    using C5_download_strict_integrity [OF s, of env_ok pm_healthy store_storj_corrupt "''f1''"] st
    by blast
  have b: "download env_ok pm_healthy store_storj_corrupt ''f1'' strict =
       Inr \<lparr>dr_provider = ''Arweave'', dr_size = 5, dr_hash = demo_hash hello,
            dr_integrity = True, dr_body = hello\<rparr>"
    by (simp add: download_defs demo_defs store_storj_corrupt_def strict_def corrupted_def)
  have c: "isl (download env_ok pm_unhealthy store_storj_corrupt ''f1'' strict)"
    using C5_download_strict_integrity [OF s, of env_ok pm_unhealthy store_storj_corrupt "''f1''"]
    by (simp add: pm_unhealthy_def isProviderHealthy_def)
  from s a b c show ?thesis by simp
qed

section \<open>Encryption round trip\<close>

lemma encrypt_isl:
  "length (c_randomBytes C KEY_LENGTH) = KEY_LENGTH \<Longrightarrow>
   isl (encrypt C data key iv) = (\<exists>b. key = KeyBuffer b \<and> length b \<noteq> KEY_LENGTH)"
  by (cases key) (auto simp: encrypt_def Let_def generateKey_def split: prod.splits)

lemma encrypt_Inr:
  assumes "encrypt C data key None = Inr r"
  shows "\<exists>k. enc_key r = k
     \<and> (k = generateKey C \<or> (\<exists>s. k = c_scrypt C s) \<or> length k = KEY_LENGTH)
     \<and> enc_encrypted r = generateIV C @ snd (c_cipher C k (generateIV C) data)
          @ fst (c_cipher C k (generateIV C) data)"
  using assms
  by (cases key) (auto simp: encrypt_def Let_def split: prod.splits if_splits)

text \<open>
  C6. For every byte sequence and every key argument, with the IV left to \<open>encrypt\<close>:
  whenever \<open>encrypt\<close> accepts the key, \<open>decrypt\<close> applied to the combined
  IV + tag + ciphertext output and the returned key gives back exactly the input bytes
  (whatever \<open>iv\<close> argument \<open>decrypt\<close> is passed, as long as no separate tag is); and
  \<open>encrypt\<close> rejects exactly the \<open>Buffer\<close> keys whose length is not 32. The assumptions
  are those on Node's primitives: the decipher inverts the cipher under the same key, IV
  and tag; tags have 16 bytes; \<open>randomBytes(n)\<close> and \<open>scryptSync(.., 32)\<close> return the
  lengths asked for.
\<close>

theorem C6_decrypt_encrypt_roundtrip:
  assumes rt: "\<forall>k v d. c_decipher C k v (snd (c_cipher C k v d)) (fst (c_cipher C k v d)) = Some d"
      and tl: "\<forall>k v d. length (snd (c_cipher C k v d)) = TAG_LENGTH"
      and rnd: "\<forall>n. length (c_randomBytes C n) = n"
      and scr: "\<forall>s. length (c_scrypt C s) = KEY_LENGTH"
  shows "(\<forall>r. encrypt C data key None = Inr r \<longrightarrow>
            decrypt C (enc_encrypted r) (KeyBuffer (enc_key r)) iv' None = Inr data)
       \<and> (isl (encrypt C data key None) = (\<exists>b. key = KeyBuffer b \<and> length b \<noteq> KEY_LENGTH))"
proof (intro conjI allI impI)
  fix r
  assume e: "encrypt C data key None = Inr r"
  let ?v = "generateIV C"
  from encrypt_Inr[OF e] have
    kk: "enc_key r = generateKey C \<or> (\<exists>s. enc_key r = c_scrypt C s) \<or> length (enc_key r) = KEY_LENGTH"
    and enc: "enc_encrypted r = ?v @ snd (c_cipher C (enc_key r) ?v data)
          @ fst (c_cipher C (enc_key r) ?v data)"
    by auto
  from kk rnd scr have kl: "length (enc_key r) = KEY_LENGTH"
    by (auto simp: generateKey_def)
  have vl: "length ?v = IV_LENGTH" using rnd by (simp add: generateIV_def)
  let ?t = "snd (c_cipher C (enc_key r) ?v data)"
  let ?c = "fst (c_cipher C (enc_key r) ?v data)"
  have tlen: "length ?t = TAG_LENGTH" using tl by simp
  have p1: "take IV_LENGTH (enc_encrypted r) = ?v" using enc vl by simp
  have p2: "take TAG_LENGTH (drop IV_LENGTH (enc_encrypted r)) = ?t" using enc vl tlen by simp
  have p3: "drop (IV_LENGTH + TAG_LENGTH) (enc_encrypted r) = ?c" using enc vl tlen by simp
  have len: "\<not> length (enc_encrypted r) < IV_LENGTH + TAG_LENGTH" using enc vl tlen by simp
  have "c_decipher C (enc_key r) ?v ?t ?c = Some data" using rt by simp
  with p1 p2 p3 len kl
  show "decrypt C (enc_encrypted r) (KeyBuffer (enc_key r)) iv' None = Inr data"
    by (cases iv') (simp_all add: decrypt_def Let_def)
next
  show "isl (encrypt C data key None) = (\<exists>b. key = KeyBuffer b \<and> length b \<noteq> KEY_LENGTH)"
    using rnd by (simp add: encrypt_isl)
qed

text \<open>C6 on the stand-in cipher, with a string key.\<close>

theorem C6_decrypt_encrypt_roundtrip_witness:
  "(\<forall>k v d. c_decipher demo_crypto k v (snd (c_cipher demo_crypto k v d)) (fst (c_cipher demo_crypto k v d)) = Some d)
   \<and> (\<forall>k v d. length (snd (c_cipher demo_crypto k v d)) = TAG_LENGTH)
   \<and> (\<forall>n. length (c_randomBytes demo_crypto n) = n)
   \<and> (\<forall>s. length (c_scrypt demo_crypto s) = KEY_LENGTH)
   \<and> encrypt demo_crypto hello (KeyString ''secret'') None =
       Inr \<lparr>enc_encrypted = replicate 16 9 @ replicate 16 0 @ [105, 102, 109, 109, 112],
            enc_key = replicate 32 7, enc_iv = replicate 16 9, enc_tag = replicate 16 0\<rparr>
   \<and> decrypt demo_crypto (replicate 16 9 @ replicate 16 0 @ [105, 102, 109, 109, 112])
         (KeyBuffer (replicate 32 7)) None None = Inr hello"
proof -
  have rt: "\<forall>k v d. c_decipher demo_crypto k v (snd (c_cipher demo_crypto k v d)) (fst (c_cipher demo_crypto k v d)) = Some d"
    by (simp add: demo_crypto_def o_def)
  have tl: "\<forall>k v d. length (snd (c_cipher demo_crypto k v d)) = TAG_LENGTH"
    by (simp add: demo_crypto_def TAG_LENGTH_def)
  have rnd: "\<forall>n. length (c_randomBytes demo_crypto n) = n"
    by (simp add: demo_crypto_def)
  have scr: "\<forall>s. length (c_scrypt demo_crypto s) = KEY_LENGTH"
    by (simp add: demo_crypto_def KEY_LENGTH_def)
  have e: "encrypt demo_crypto hello (KeyString ''secret'') None =
       Inr \<lparr>enc_encrypted = replicate 16 9 @ replicate 16 0 @ [105, 102, 109, 109, 112],
            enc_key = replicate 32 7, enc_iv = replicate 16 9, enc_tag = replicate 16 0\<rparr>"
    by (simp add: encrypt_def demo_crypto_def hello_def Let_def generateIV_def IV_LENGTH_def)
  from C6_decrypt_encrypt_roundtrip [OF rt tl rnd scr, of hello "KeyString ''secret''" None] e
  have d: "decrypt demo_crypto (replicate 16 9 @ replicate 16 0 @ [105, 102, 109, 109, 112])
         (KeyBuffer (replicate 32 7)) None None = Inr hello"
    by simp
  from rt tl rnd scr e d show ?thesis by blast
qed

section \<open>Chunking and reconstruction\<close>

lemma chunk_loop_map:
  "chunk_loop E data cs tot i ids =
     map (\<lambda>j. mk_chunk E data cs j (ids + (j - i))) [i..<tot]"
proof (induction E data cs tot i ids rule: chunk_loop.induct)
  case (1 E data chunkSize totalChunks i ids)
  show ?case
  proof (cases "i < totalChunks")
    case True
    have "map (\<lambda>j. mk_chunk E data chunkSize j (Suc ids + (j - Suc i))) [Suc i..<totalChunks]
        = map (\<lambda>j. mk_chunk E data chunkSize j (ids + (j - i))) [Suc i..<totalChunks]"
    proof (rule map_cong)
      fix j assume "j \<in> set [Suc i..<totalChunks]"
      then have "Suc ids + (j - Suc i) = ids + (j - i)" by auto
      then show "mk_chunk E data chunkSize j (Suc ids + (j - Suc i))
          = mk_chunk E data chunkSize j (ids + (j - i))" by (simp only:)
    qed simp
    with True 1 show ?thesis
      by (subst chunk_loop.simps) (simp add: upt_conv_Cons Let_def mk_chunk_def)
  next
    case False
    then show ?thesis by (subst chunk_loop.simps) simp
  qed
qed

lemma readSync_exact:
  "position + n \<le> length data \<Longrightarrow> readSync data n position = take n (drop position data)"
  by (simp add: readSync_def Let_def)

lemma ceil_div_bounds:
  assumes "0 < (cs::nat)"
  shows "len \<le> ((len + cs - 1) div cs) * cs"
    and "j < (len + cs - 1) div cs \<Longrightarrow> j * cs < len"
proof -
  let ?t = "(len + cs - 1) div cs"
  have "len + cs - 1 < (?t + 1) * cs"
    using assms by (metis Suc_eq_plus1 dividend_less_div_times mult.commute mult_Suc)
  then show "len \<le> ?t * cs" using assms by (simp add: algebra_simps)
  assume j: "j < ?t"
  then have "Suc j \<le> ?t" by simp
  then have "Suc j * cs \<le> ?t * cs" by (rule mult_le_mono1)
  also have "?t * cs \<le> len + cs - 1" by simp
  finally show "j * cs < len" using assms by simp
qed

lemma concat_slices:
  "0 < cs \<Longrightarrow> length data \<le> n * cs \<Longrightarrow>
   concat (map (\<lambda>j. take cs (drop (j * cs) data)) [0..<n]) = data"
proof (induction n arbitrary: data)
  case 0
  then show ?case by simp
next
  case (Suc n)
  have "[0..<Suc n] = 0 # map Suc [0..<n]"
    by (simp add: upt_conv_Cons map_Suc_upt del: upt_Suc)
  then have "concat (map (\<lambda>j. take cs (drop (j * cs) data)) [0..<Suc n])
      = take cs data @ concat (map (\<lambda>j. take cs (drop (j * cs) (drop cs data))) [0..<n])"
    by (simp add: o_def add.commute del: upt_Suc)
  also have "concat (map (\<lambda>j. take cs (drop (j * cs) (drop cs data))) [0..<n]) = drop cs data"
    using Suc.prems by (intro Suc.IH) simp_all
  finally show ?case by simp
qed


lemma mk_chunk_data:
  assumes "0 < cs" "j < (length data + cs - 1) div cs"
  shows "ch_data (mk_chunk E data cs j ident) = take cs (drop (j * cs) data)"
proof -
  have lt: "j * cs < length data" using assms by (rule ceil_div_bounds(2))
  have "readSync data (min (j * cs + cs) (length data) - j * cs) (j * cs)
      = take (min (j * cs + cs) (length data) - j * cs) (drop (j * cs) data)"
    using lt by (intro readSync_exact) simp
  also have "\<dots> = take cs (drop (j * cs) data)"
    using lt by (simp add: min_def)
  finally show ?thesis by (simp add: mk_chunk_def)
qed

lemma mk_chunk_fields:
  "ch_index (mk_chunk E data cs j ident) = j"
  "ch_size (mk_chunk E data cs j ident) = length (ch_data (mk_chunk E data cs j ident))"
  "ch_hash (mk_chunk E data cs j ident) = e_hash E (ch_data (mk_chunk E data cs j ident))"
  by (simp_all add: mk_chunk_def)

lemma slice_length:
  assumes "0 < cs" "j < (length data + cs - 1) div cs"
  shows "0 < length (take cs (drop (j * cs) data))"
    and "length (take cs (drop (j * cs) data)) \<le> cs"
    and "Suc j < (length data + cs - 1) div cs \<Longrightarrow> length (take cs (drop (j * cs) data)) = cs"
proof -
  have lt: "j * cs < length data" using assms by (rule ceil_div_bounds(2))
  then show "0 < length (take cs (drop (j * cs) data))" using assms(1) by simp
  show "length (take cs (drop (j * cs) data)) \<le> cs" by simp
  assume "Suc j < (length data + cs - 1) div cs"
  then have "Suc j * cs < length data" using assms(1) by (intro ceil_div_bounds(2))
  then show "length (take cs (drop (j * cs) data)) = cs" by simp
qed

lemma chunkFile_Some:
  assumes "0 < effectiveChunkSize cfg opts"
  shows "chunkFile E cfg f opts w =
     Some (\<lparr>cr_chunks = map (\<lambda>j. mk_chunk E (content f) (effectiveChunkSize cfg opts) j (w_ids w + j))
                          [0..<(length (content f) + effectiveChunkSize cfg opts - 1)
                                 div effectiveChunkSize cfg opts],
            cr_totalChunks = (length (content f) + effectiveChunkSize cfg opts - 1)
                                 div effectiveChunkSize cfg opts,
            cr_originalSize = length (content f)\<rparr>,
           w\<lparr>w_ids := w_ids w + (length (content f) + effectiveChunkSize cfg opts - 1)
                                 div effectiveChunkSize cfg opts\<rparr>)"
  using assms by (simp add: chunkFile_def Let_def chunk_loop_map)

lemma reconstruct_chunks:
  assumes "0 < cs"
      and chunks_def: "chunks = map (\<lambda>j. mk_chunk E data cs j (k + j)) [0..<(length data + cs - 1) div cs]"
  shows "reconstructFile chunks = data"
    and "mset cs' = mset chunks \<Longrightarrow> reconstructFile cs' = data"
proof -
  let ?t = "(length data + cs - 1) div cs"
  have idx: "map ch_index chunks = [0..<?t]"
    by (simp add: chunks_def o_def mk_chunk_fields(1) map_idI)
  then have srt: "sorted (map ch_index chunks)" by simp
  have "map ch_data chunks = map (\<lambda>j. take cs (drop (j * cs) data)) [0..<?t]"
    using assms(1) by (simp add: chunks_def mk_chunk_data)
  then have cat: "concat (map ch_data chunks) = data"
    using concat_slices[OF assms(1) ceil_div_bounds(1)[OF assms(1)], of data] by simp
  from srt cat show "reconstructFile chunks = data"
    by (simp add: reconstructFile_def sort_key_id_if_sorted)
  assume perm: "mset cs' = mset chunks"
  have "distinct (map ch_index chunks)" using idx by simp
  then have "inj_on ch_index (set chunks)" by (simp add: distinct_map)
  moreover have "set cs' = set chunks" using perm by (rule mset_eq_setD)
  ultimately have "inj_on ch_index (set cs')" by simp
  from sort_key_inj_key_eq[OF perm this srt] cat
  show "reconstructFile cs' = data" by (simp add: reconstructFile_def)
qed

text \<open>
  C7. With a positive chunk size \<open>cs\<close> (\<open>options.chunkSize || config.chunkSize\<close>),
  \<open>chunkFile\<close> returns, with exactly \<open>ceil(size / cs)\<close> chunks; chunk \<open>i\<close> has index
  \<open>i\<close>, holds the \<open>cs\<close> bytes from offset \<open>i * cs\<close> (fewer, but at least one, for the
  last chunk), and records the hash of its bytes; \<open>reconstructFile\<close> on the chunks, in
  any order, gives back the original bytes, and hence content that hashes like the
  chunked file (\<open>finalHash\<close>); and when the file exceeds \<open>config.chunkSize\<close>, step 6 of
  \<open>processFile\<close> records these chunks with \<open>chunked = true\<close>.
\<close>

theorem C7_chunk_and_reconstruct:
  assumes pos: "0 < effectiveChunkSize cfg opts"
  shows "\<exists>res w'. chunkFile E cfg f opts w = Some (res, w')
     \<and> cr_totalChunks res =
         (length (content f) + effectiveChunkSize cfg opts - 1) div effectiveChunkSize cfg opts
     \<and> length (cr_chunks res) = cr_totalChunks res
     \<and> (\<forall>i < length (cr_chunks res).
           ch_index (cr_chunks res ! i) = i
         \<and> ch_data (cr_chunks res ! i)
             = take (effectiveChunkSize cfg opts) (drop (i * effectiveChunkSize cfg opts) (content f))
         \<and> ch_size (cr_chunks res ! i) = length (ch_data (cr_chunks res ! i))
         \<and> ch_hash (cr_chunks res ! i) = e_hash E (ch_data (cr_chunks res ! i))
         \<and> 0 < ch_size (cr_chunks res ! i)
         \<and> ch_size (cr_chunks res ! i) \<le> effectiveChunkSize cfg opts
         \<and> (Suc i < length (cr_chunks res) \<longrightarrow>
               ch_size (cr_chunks res ! i) = effectiveChunkSize cfg opts))
     \<and> reconstructFile (cr_chunks res) = content f
     \<and> (\<forall>cs'. mset cs' = mset (cr_chunks res) \<longrightarrow> reconstructFile cs' = content f)
     \<and> e_hash E (reconstructFile (cr_chunks res)) = e_hash E (content f)
     \<and> (cfg_chunkSize cfg < length (content f) \<longrightarrow>
           chunking_stage E cfg f opts w = Some (cr_chunks res, True, w'))"
proof -
  let ?cs = "effectiveChunkSize cfg opts"
  let ?t = "(length (content f) + ?cs - 1) div ?cs"
  let ?chunks = "map (\<lambda>j. mk_chunk E (content f) ?cs j (w_ids w + j)) [0..<?t]"
  let ?res = "\<lparr>cr_chunks = ?chunks, cr_totalChunks = ?t, cr_originalSize = length (content f)\<rparr>"
  let ?w = "w\<lparr>w_ids := w_ids w + ?t\<rparr>"
  have cf: "chunkFile E cfg f opts w = Some (?res, ?w)"
    using pos by (rule chunkFile_Some)
  have each: "\<forall>i < length ?chunks.
           ch_index (?chunks ! i) = i
         \<and> ch_data (?chunks ! i) = take ?cs (drop (i * ?cs) (content f))
         \<and> ch_size (?chunks ! i) = length (ch_data (?chunks ! i))
         \<and> ch_hash (?chunks ! i) = e_hash E (ch_data (?chunks ! i))
         \<and> 0 < ch_size (?chunks ! i)
         \<and> ch_size (?chunks ! i) \<le> ?cs
         \<and> (Suc i < length ?chunks \<longrightarrow> ch_size (?chunks ! i) = ?cs)"
  proof (intro allI impI)
    fix i assume "i < length ?chunks"
    then have i: "i < ?t" by simp
    then have nth: "?chunks ! i = mk_chunk E (content f) ?cs i (w_ids w + i)" by simp
    have d: "ch_data (?chunks ! i) = take ?cs (drop (i * ?cs) (content f))"
      unfolding nth using pos i by (rule mk_chunk_data)
    have sz: "ch_size (?chunks ! i) = length (take ?cs (drop (i * ?cs) (content f)))"
      unfolding nth by (simp only: mk_chunk_fields(2) mk_chunk_data[OF pos i])
    show "ch_index (?chunks ! i) = i
         \<and> ch_data (?chunks ! i) = take ?cs (drop (i * ?cs) (content f))
         \<and> ch_size (?chunks ! i) = length (ch_data (?chunks ! i))
         \<and> ch_hash (?chunks ! i) = e_hash E (ch_data (?chunks ! i))
         \<and> 0 < ch_size (?chunks ! i)
         \<and> ch_size (?chunks ! i) \<le> ?cs
         \<and> (Suc i < length ?chunks \<longrightarrow> ch_size (?chunks ! i) = ?cs)"
    proof (intro conjI impI)
      show "ch_index (?chunks ! i) = i" unfolding nth by (rule mk_chunk_fields(1))
      show "ch_data (?chunks ! i) = take ?cs (drop (i * ?cs) (content f))" by (rule d)
      show "ch_size (?chunks ! i) = length (ch_data (?chunks ! i))"
        unfolding nth by (rule mk_chunk_fields(2))
      show "ch_hash (?chunks ! i) = e_hash E (ch_data (?chunks ! i))"
        unfolding nth by (rule mk_chunk_fields(3))
      show "0 < ch_size (?chunks ! i)"
        unfolding sz using pos i by (rule slice_length(1))
      show "ch_size (?chunks ! i) \<le> ?cs"
        unfolding sz using pos i by (rule slice_length(2))
      assume "Suc i < length ?chunks"
      then have "Suc i < ?t" by simp
      with pos i show "ch_size (?chunks ! i) = ?cs"
        unfolding sz by (intro slice_length(3))
    qed
  qed
  have rec: "reconstructFile ?chunks = content f"
    using pos refl by (rule reconstruct_chunks(1))
  have perm: "\<forall>cs'. mset cs' = mset ?chunks \<longrightarrow> reconstructFile cs' = content f"
    using reconstruct_chunks(2)[OF pos refl] by blast
  have stage: "cfg_chunkSize cfg < length (content f) \<longrightarrow>
           chunking_stage E cfg f opts w = Some (?chunks, True, ?w)"
    using cf by (simp add: chunking_stage_def)
  have sel: "cr_chunks ?res = ?chunks" "cr_totalChunks ?res = ?t" by simp_all
  have len: "length ?chunks = ?t" by simp
  have hsh: "e_hash E (reconstructFile ?chunks) = e_hash E (content f)"
    using rec by simp
  show ?thesis
  proof (intro exI conjI)
    show "chunkFile E cfg f opts w = Some (?res, ?w)" by (rule cf)
    show "cr_totalChunks ?res = ?t" by (rule sel(2))
    show "length (cr_chunks ?res) = cr_totalChunks ?res" unfolding sel by (rule len)
    show "\<forall>i < length (cr_chunks ?res).
           ch_index (cr_chunks ?res ! i) = i
         \<and> ch_data (cr_chunks ?res ! i) = take ?cs (drop (i * ?cs) (content f))
         \<and> ch_size (cr_chunks ?res ! i) = length (ch_data (cr_chunks ?res ! i))
         \<and> ch_hash (cr_chunks ?res ! i) = e_hash E (ch_data (cr_chunks ?res ! i))
         \<and> 0 < ch_size (cr_chunks ?res ! i)
         \<and> ch_size (cr_chunks ?res ! i) \<le> ?cs
         \<and> (Suc i < length (cr_chunks ?res) \<longrightarrow> ch_size (cr_chunks ?res ! i) = ?cs)"
      unfolding sel by (rule each)
    show "reconstructFile (cr_chunks ?res) = content f" unfolding sel by (rule rec)
    show "\<forall>cs'. mset cs' = mset (cr_chunks ?res) \<longrightarrow> reconstructFile cs' = content f"
      unfolding sel by (rule perm)
    show "e_hash E (reconstructFile (cr_chunks ?res)) = e_hash E (content f)"
      unfolding sel by (rule hsh)
    show "cfg_chunkSize cfg < length (content f) \<longrightarrow>
           chunking_stage E cfg f opts w = Some (cr_chunks ?res, True, ?w)"
      unfolding sel by (rule stage)
  qed
qed

text \<open>
  C7 on \<open>hello\<close> with chunks of two bytes: three chunks, the last of one byte, and the
  reversed chunk list reconstructs \<open>hello\<close>.
\<close>

theorem C7_chunk_and_reconstruct_witness:
  "0 < effectiveChunkSize cfg_small popts_default
   \<and> (\<exists>res w'. chunkFile env_ok cfg_small hello_file popts_default world0 = Some (res, w')
         \<and> cr_totalChunks res = 3
         \<and> map ch_data (cr_chunks res) = [[104, 101], [108, 108], [111]]
         \<and> map ch_hash (cr_chunks res) = [''11'', ''11'', ''1'']
         \<and> reconstructFile (rev (cr_chunks res)) = hello
         \<and> chunking_stage env_ok cfg_small hello_file popts_default world0
             = Some (cr_chunks res, True, w'))"
proof -
  have pos: "0 < effectiveChunkSize cfg_small popts_default"
    by (simp add: effectiveChunkSize_def cfg_small_def popts_default_def)
  from C7_chunk_and_reconstruct [OF pos, of env_ok hello_file world0]
  obtain res w' where
    r: "chunkFile env_ok cfg_small hello_file popts_default world0 = Some (res, w')"
       "\<forall>cs'. mset cs' = mset (cr_chunks res) \<longrightarrow> reconstructFile cs' = content hello_file"
       "cfg_chunkSize cfg_small < length (content hello_file) \<longrightarrow>
          chunking_stage env_ok cfg_small hello_file popts_default world0 = Some (cr_chunks res, True, w')"
    by blast
  have c: "cr_totalChunks res = 3
         \<and> map ch_data (cr_chunks res) = [[104, 101], [108, 108], [111]]
         \<and> map ch_hash (cr_chunks res) = [''11'', ''11'', ''1'']"
    using r(1)
    by (auto simp add: chunkFile_def effectiveChunkSize_def cfg_small_def popts_default_def
        chunk_loop.simps readSync_def Let_def demo_defs)
  have "mset (rev (cr_chunks res)) = mset (cr_chunks res)" by simp
  with r(2) have rv: "reconstructFile (rev (cr_chunks res)) = hello"
    by (simp add: hello_file_def)
  have st: "chunking_stage env_ok cfg_small hello_file popts_default world0 = Some (cr_chunks res, True, w')"
    using r(3) by (simp add: cfg_small_def hello_file_def hello_def)
  from pos r(1) c rv st show ?thesis
    by (intro conjI exI[of _ res] exI[of _ w']) simp_all
qed

text \<open>
  The same through \<open>processFile\<close>: a result is chunked exactly when the processed
  file exceeds \<open>config.chunkSize\<close>, and then its chunks reconstruct to the processed
  file, whose hash is \<open>finalHash\<close>.
\<close>

lemma processFile_stages:
  assumes "processFile Z E cfg st f opts w = Some (Inr (Processed r), st', w')"
  shows "\<exists>w2. chunking_stage E cfg (pr_processedPath r) opts w2
            = Some (pi_chunks (pr_processing r), pi_chunked (pr_processing r), w')
         \<and> pr_finalHash r = e_hash E (content (pr_processedPath r))"
  using assms
  by (auto simp: processFile_def Let_def split: if_splits option.splits prod.splits sum.splits)

lemma processFile_chunks_reconstruct:
  assumes p: "processFile Z E cfg st f opts w = Some (Inr (Processed r), st', w')"
  shows "pi_chunked (pr_processing r) = (cfg_chunkSize cfg < length (content (pr_processedPath r)))"
    and "pi_chunked (pr_processing r) \<Longrightarrow>
           length (pi_chunks (pr_processing r))
             = (length (content (pr_processedPath r)) + effectiveChunkSize cfg opts - 1)
                 div effectiveChunkSize cfg opts
           \<and> reconstructFile (pi_chunks (pr_processing r)) = content (pr_processedPath r)
           \<and> e_hash E (reconstructFile (pi_chunks (pr_processing r))) = pr_finalHash r"
proof -
  let ?g = "pr_processedPath r"
  from processFile_stages[OF p] obtain w2 where
    st: "chunking_stage E cfg ?g opts w2
            = Some (pi_chunks (pr_processing r), pi_chunked (pr_processing r), w')"
    and fh: "pr_finalHash r = e_hash E (content ?g)" by blast
  from st show c: "pi_chunked (pr_processing r) = (cfg_chunkSize cfg < length (content ?g))"
    by (auto simp: chunking_stage_def split: if_splits option.splits prod.splits)
  assume "pi_chunked (pr_processing r)"
  with c have big: "cfg_chunkSize cfg < length (content ?g)" by simp
  with st obtain res where cf: "chunkFile E cfg ?g opts w2 = Some (res, w')"
    and ch: "pi_chunks (pr_processing r) = cr_chunks res"
    by (auto simp: chunking_stage_def split: option.splits prod.splits)
  from cf big have pos: "0 < effectiveChunkSize cfg opts"
    by (auto simp: chunkFile_def Let_def split: if_splits)
  from chunkFile_Some[OF pos, of E ?g w2] cf
  have res: "cr_chunks res =
      map (\<lambda>j. mk_chunk E (content ?g) (effectiveChunkSize cfg opts) j (w_ids w2 + j))
        [0..<(length (content ?g) + effectiveChunkSize cfg opts - 1) div effectiveChunkSize cfg opts]"
    by auto
  have "reconstructFile (cr_chunks res) = content ?g"
    using pos res by (rule reconstruct_chunks(1))
  with ch res fh
  show "length (pi_chunks (pr_processing r))
             = (length (content ?g) + effectiveChunkSize cfg opts - 1)
                 div effectiveChunkSize cfg opts
           \<and> reconstructFile (pi_chunks (pr_processing r)) = content ?g
           \<and> e_hash E (reconstructFile (pi_chunks (pr_processing r))) = pr_finalHash r"
    by simp
qed

section \<open>Compression\<close>

lemma compressFile_cases:
  "compressFile Z E f opts w = (res, w') \<Longrightarrow>
   (case z_gzip Z (content f) (gzipLevel opts) of
      None \<Rightarrow> res = CompressionError \<and> w_temp w' = w_temp w
    | Some c \<Rightarrow>
        if 10 * length c < 9 * length (content f)
        then (\<exists>name. res = Beneficial \<lparr>basename = name, content = c\<rparr> (length (content f)) (length c)
               \<and> w_temp w' = w_temp w @ [\<lparr>basename = name, content = c\<rparr>])
        else res = NotBeneficial \<and> w_temp w' = w_temp w)"
  by (auto simp: compressFile_def Let_def split: option.splits if_splits)

lemma compression_stage_spec:
  assumes "compression_stage Z E cfg f opts w = (attempt, f', compressed, w')"
  shows "(attempt \<noteq> None) =
           (cfg_enableCompression cfg \<and> cfg_compressionThreshold cfg < length (content f))"
    and "(attempt \<noteq> None) \<longrightarrow> attempt = Some (fst (compressFile Z E f opts w))"
    and "compressed =
           (cfg_enableCompression cfg \<and> cfg_compressionThreshold cfg < length (content f)
            \<and> (\<exists>c. z_gzip Z (content f) (gzipLevel opts) = Some c
                  \<and> 10 * length c < 9 * length (content f)))"
    and "compressed \<longrightarrow>
           z_gzip Z (content f) (gzipLevel opts) = Some (content f')
           \<and> w_temp w' = w_temp w @ [f']"
    and "\<not> compressed \<longrightarrow> f' = f \<and> w_temp w' = w_temp w"
proof -
  obtain res w1 where cf: "compressFile Z E f opts w = (res, w1)"
    by (cases "compressFile Z E f opts w")
  note cc = compressFile_cases[OF cf]
  show "(attempt \<noteq> None) =
           (cfg_enableCompression cfg \<and> cfg_compressionThreshold cfg < length (content f))"
    using assms cf
    by (auto simp: compression_stage_def split: if_splits compress_result.splits)
  show "(attempt \<noteq> None) \<longrightarrow> attempt = Some (fst (compressFile Z E f opts w))"
    using assms cf
    by (auto simp: compression_stage_def split: if_splits compress_result.splits)
  show "compressed =
           (cfg_enableCompression cfg \<and> cfg_compressionThreshold cfg < length (content f)
            \<and> (\<exists>c. z_gzip Z (content f) (gzipLevel opts) = Some c
                  \<and> 10 * length c < 9 * length (content f)))"
    using assms cf cc
    by (auto simp: compression_stage_def split: if_splits compress_result.splits option.splits)
  show "compressed \<longrightarrow>
           z_gzip Z (content f) (gzipLevel opts) = Some (content f')
           \<and> w_temp w' = w_temp w @ [f']"
    using assms cf cc
    by (auto simp: compression_stage_def split: if_splits compress_result.splits option.splits)
  show "\<not> compressed \<longrightarrow> f' = f \<and> w_temp w' = w_temp w"
    using assms cf cc
    by (auto simp: compression_stage_def split: if_splits compress_result.splits option.splits)
qed

lemma processFile_Processed:
  assumes "processFile Z E cfg st f opts w = Some (Inr (Processed r), st', w')"
  shows "\<exists>attempt f1 w1 w2.
           compression_stage Z E cfg f opts (w\<lparr>w_ids := Suc (w_ids w)\<rparr>)
             = (attempt, f1, pi_compressed (pr_processing r), w1)
         \<and> encryption_stage Z E cfg f1 opts w1
             = (Inr (pr_processedPath r, pi_encrypted (pr_processing r),
                     pi_encryptionKey (pr_processing r), pi_encryptionIv (pr_processing r)), w2)"
  using assms
  by (auto simp: processFile_def Let_def split: if_splits option.splits prod.splits sum.splits)


lemma encryption_stage_plain:
  "encryption_stage Z E cfg f1 opts w1 = (Inr (f2, False, key, iv), w2) \<Longrightarrow> f2 = f1"
  by (auto simp: encryption_stage_def split: if_splits prod.splits sum.splits)

text \<open>
  C8. In step 4 of \<open>processFile\<close>, \<open>compressFile\<close> is called exactly when compression
  is enabled and the input is larger than the configured threshold; the compressed file
  replaces the input exactly when, in addition, \<open>gzip\<close> returned and its output is
  strictly smaller than 90 percent of the input (\<open>10 * c < 9 * n\<close>), and then it is the
  one file written to the temporary directory; in every other case the stage hands on
  the original file, writes nothing, and \<open>compressed\<close> is false. A result of
  \<open>processFile\<close> carries that flag, and with neither compression nor encryption applied
  its processed file is the original.
\<close>

theorem C8_compression_kept_only_when_beneficial:
  assumes stage: "compression_stage Z E cfg f opts w = (attempt, f', compressed, w')"
  shows "(attempt \<noteq> None) =
           (cfg_enableCompression cfg \<and> cfg_compressionThreshold cfg < length (content f))
       \<and> compressed =
           (cfg_enableCompression cfg \<and> cfg_compressionThreshold cfg < length (content f)
            \<and> (\<exists>c. z_gzip Z (content f) (gzipLevel opts) = Some c
                  \<and> 10 * length c < 9 * length (content f)))
       \<and> (compressed \<longrightarrow>
             z_gzip Z (content f) (gzipLevel opts) = Some (content f')
             \<and> w_temp w' = w_temp w @ [f'])
       \<and> (\<not> compressed \<longrightarrow> f' = f \<and> w_temp w' = w_temp w)
       \<and> (\<forall>st v r st' v'.
             processFile Z E cfg st f opts v = Some (Inr (Processed r), st', v') \<longrightarrow>
               pi_compressed (pr_processing r) = compressed
               \<and> (\<not> compressed \<and> \<not> pi_encrypted (pr_processing r) \<longrightarrow> pr_processedPath r = f))"
proof (intro conjI allI impI)
  show "(attempt \<noteq> None) =
           (cfg_enableCompression cfg \<and> cfg_compressionThreshold cfg < length (content f))"
    using stage by (rule compression_stage_spec(1))
  show c: "compressed =
           (cfg_enableCompression cfg \<and> cfg_compressionThreshold cfg < length (content f)
            \<and> (\<exists>c. z_gzip Z (content f) (gzipLevel opts) = Some c
                  \<and> 10 * length c < 9 * length (content f)))"
    using stage by (rule compression_stage_spec(3))
  {
    assume "compressed"
    with compression_stage_spec(4)[OF stage]
    show "z_gzip Z (content f) (gzipLevel opts) = Some (content f')"
      and "w_temp w' = w_temp w @ [f']" by simp_all
  }
  {
    assume "\<not> compressed"
    with compression_stage_spec(5)[OF stage]
    show "f' = f" and "w_temp w' = w_temp w" by simp_all
  }
  fix st v r st' v'
  assume p: "processFile Z E cfg st f opts v = Some (Inr (Processed r), st', v')"
  from processFile_Processed[OF p] obtain attempt1 f1 w1 w2 where
    s1: "compression_stage Z E cfg f opts (v\<lparr>w_ids := Suc (w_ids v)\<rparr>)
             = (attempt1, f1, pi_compressed (pr_processing r), w1)"
    and s2: "encryption_stage Z E cfg f1 opts w1
             = (Inr (pr_processedPath r, pi_encrypted (pr_processing r),
                     pi_encryptionKey (pr_processing r), pi_encryptionIv (pr_processing r)), w2)"
    by blast
  from compression_stage_spec(3)[OF s1] c
  show same: "pi_compressed (pr_processing r) = compressed" by simp
  assume "\<not> compressed \<and> \<not> pi_encrypted (pr_processing r)"
  then have nc: "\<not> pi_compressed (pr_processing r)" and ne: "\<not> pi_encrypted (pr_processing r)"
    using same by simp_all
  from compression_stage_spec(5)[OF s1] nc have "f1 = f" by simp
  moreover from s2 ne have "pr_processedPath r = f1"
    by (intro encryption_stage_plain[of Z E cfg f1 opts w1 _ _ _ w2]) simp
  ultimately show "pr_processedPath r = f" by simp
qed

lemmas fp_defs = compression_stage_def compressFile_def gzipLevel_def demo_codecs_def
  cfg_small_def popts_default_def hell_file_def fp_empty_def Let_def

text \<open>
  C8 on two inputs above the threshold: \<open>hello\<close>, which the stand-in compressor
  shrinks to two bytes, and a four-byte file, which it lengthens.
\<close>

theorem C8_compression_kept_only_when_beneficial_witness:
  "compression_stage demo_codecs env_ok cfg_small hello_file popts_default world0 =
     (Some (Beneficial \<lparr>basename = ''compressed_id.gz'', content = [104, 101]\<rparr> 5 2),
      \<lparr>basename = ''compressed_id.gz'', content = [104, 101]\<rparr>, True,
      \<lparr>w_ids = 1, w_puts = [],
       w_temp = [\<lparr>basename = ''compressed_id.gz'', content = [104, 101]\<rparr>]\<rparr>)
   \<and> z_gzip demo_codecs (content hello_file) (gzipLevel popts_default) = Some [104, 101]
   \<and> cfg_compressionThreshold cfg_small < length (content hello_file)
   \<and> compression_stage demo_codecs env_ok cfg_small hell_file popts_default world0 =
     (Some NotBeneficial, hell_file, False, \<lparr>w_ids = 1, w_puts = [], w_temp = []\<rparr>)
   \<and> \<not> (\<exists>c. z_gzip demo_codecs (content hell_file) (gzipLevel popts_default) = Some c
            \<and> 10 * length c < 9 * length (content hell_file))"
proof -
  have s1: "compression_stage demo_codecs env_ok cfg_small hello_file popts_default world0 =
     (Some (Beneficial \<lparr>basename = ''compressed_id.gz'', content = [104, 101]\<rparr> 5 2),
      \<lparr>basename = ''compressed_id.gz'', content = [104, 101]\<rparr>, True,
      \<lparr>w_ids = 1, w_puts = [],
       w_temp = [\<lparr>basename = ''compressed_id.gz'', content = [104, 101]\<rparr>]\<rparr>)"
    by (simp add: fp_defs demo_defs)
  have s2: "compression_stage demo_codecs env_ok cfg_small hell_file popts_default world0 =
     (Some NotBeneficial, hell_file, False, \<lparr>w_ids = 1, w_puts = [], w_temp = []\<rparr>)"
    by (simp add: fp_defs demo_defs)
  from C8_compression_kept_only_when_beneficial [OF s1]
  have a: "z_gzip demo_codecs (content hello_file) (gzipLevel popts_default) = Some [104, 101]"
    and b: "cfg_compressionThreshold cfg_small < length (content hello_file)"
    by simp_all
  from C8_compression_kept_only_when_beneficial [OF s2]
  have c: "\<not> (\<exists>c. z_gzip demo_codecs (content hell_file) (gzipLevel popts_default) = Some c
            \<and> 10 * length c < 9 * length (content hell_file))"
    by (simp add: cfg_small_def hell_file_def)
  from s1 a b s2 c show ?thesis by (intro conjI)
qed

section \<open>Reading metadata\<close>

lemma redact_secrets_lookup:
  "hp_processing h a = Some p \<Longrightarrow>
   hp_processing (redact_secrets h (Some a)) a =
     Some (p\<lparr>mp_encryptionKey := (if truthy (mp_encryptionKey p) then REDACTED else mp_encryptionKey p),
             mp_encryptionIv := (if truthy (mp_encryptionIv p) then REDACTED else mp_encryptionIv p)\<rparr>)"
  by (simp add: redact_secrets_def Let_def)

lemma filterMetadata_result:
  assumes "md_processing m = Some a" "hp_processing (mm_heap st) a = Some p"
  shows "(\<not> (restrictedAccess opts \<and> md_blockchain m = None) \<longrightarrow>
            (\<exists>r st'. filterMetadata st (Some m) opts = (Inr (Some r), st')))
       \<and> (\<forall>r st'. filterMetadata st (Some m) opts = (Inr (Some r), st') \<longrightarrow>
            processing_of st' r =
              (if mo_includeSecrets opts then Some p
               else Some (p\<lparr>mp_encryptionKey := (if truthy (mp_encryptionKey p) then REDACTED else mp_encryptionKey p),
                            mp_encryptionIv := (if truthy (mp_encryptionIv p) then REDACTED else mp_encryptionIv p)\<rparr>)))"
  using assms redact_secrets_lookup[OF assms(2)]
  by (auto simp: filterMetadata_def Let_def processing_of_def view_def
           split: option.splits if_splits)


lemma getMetadata_as_filter:
  assumes "stored_record st fileId = Some v" "md_processing v = Some p"
  shows "\<exists>st0 m a. getMetadata st fileId opts = filterMetadata st0 (Some m) opts
            \<and> md_processing m = Some a \<and> hp_processing (mm_heap st0) a = Some p"
proof (cases "metadataCache st fileId")
  case (Some m)
  with assms have "md_processing (view (mm_heap st) m) = Some p"
    by (simp add: stored_record_def)
  then obtain a where "md_processing m = Some a" "hp_processing (mm_heap st) a = Some p"
    by (auto simp: view_def split: option.splits)
  moreover have "getMetadata st fileId opts = filterMetadata st (Some m) opts"
    using Some by (simp add: getMetadata_def)
  ultimately show ?thesis by blast
next
  case None
  with assms have d: "mm_disk st fileId = Some v" by (simp add: stored_record_def)
  obtain m h where pr: "parse (mm_heap st) v = (m, h)" by (cases "parse (mm_heap st) v")
  let ?st0 = "st\<lparr>mm_heap := h, metadataCache := (metadataCache st)(fileId \<mapsto> m)\<rparr>"
  from pr assms(2) have "md_processing m = Some (hp_next (mm_heap st))"
    and "hp_processing h (hp_next (mm_heap st)) = Some p"
    by (auto simp: parse_def Let_def)
  moreover have "getMetadata st fileId opts = filterMetadata ?st0 (Some m) opts"
    using None d pr by (simp add: getMetadata_def loadMetadataFromDisk_def)
  moreover have "mm_heap ?st0 = h" by simp
  ultimately show ?thesis by metis
qed

text \<open>
  C9. For a file id whose stored record (cached, or on disk when not cached) has a
  \<open>processing\<close> object with a truthy \<open>encryptionKey\<close> and \<open>encryptionIv\<close>: every
  record \<open>getMetadata\<close> returns without \<open>includeSecrets\<close> shows the string
  \<open>[REDACTED]\<close> in both fields, and every record it returns with \<open>includeSecrets\<close>
  shows the stored values; and it does return a record unless the options carry a
  non-admin access level.
\<close>

theorem C9_secrets_redacted_unless_requested:
  assumes rec: "stored_record st fileId = Some v"
      and proc: "md_processing v = Some p"
      and key: "truthy (mp_encryptionKey p)"
      and iv: "truthy (mp_encryptionIv p)"
  shows "(\<not> restrictedAccess opts \<longrightarrow>
            (\<exists>r st'. getMetadata st fileId opts = (Inr (Some r), st')))
       \<and> (\<forall>r st'. getMetadata st fileId opts = (Inr (Some r), st') \<longrightarrow>
            (\<not> mo_includeSecrets opts \<longrightarrow>
               map_option mp_encryptionKey (processing_of st' r) = Some REDACTED
               \<and> map_option mp_encryptionIv (processing_of st' r) = Some REDACTED)
            \<and> (mo_includeSecrets opts \<longrightarrow>
               map_option mp_encryptionKey (processing_of st' r) = Some (mp_encryptionKey p)
               \<and> map_option mp_encryptionIv (processing_of st' r) = Some (mp_encryptionIv p)))"
proof -
  from getMetadata_as_filter[OF rec proc] obtain st0 m a where
    g: "getMetadata st fileId opts = filterMetadata st0 (Some m) opts"
    and a: "md_processing m = Some a" "hp_processing (mm_heap st0) a = Some p"
    by blast
  note f = filterMetadata_result[OF a, of opts]
  show ?thesis
  proof (intro conjI allI impI)
    assume "\<not> restrictedAccess opts"
    with f show "\<exists>r st'. getMetadata st fileId opts = (Inr (Some r), st')"
      unfolding g by blast
  next
    fix r st'
    assume ok: "getMetadata st fileId opts = (Inr (Some r), st')" and ns: "\<not> mo_includeSecrets opts"
    with f have "processing_of st' r = Some (p\<lparr>mp_encryptionKey := REDACTED, mp_encryptionIv := REDACTED\<rparr>)"
      unfolding g using key iv by simp
    then show "map_option mp_encryptionKey (processing_of st' r) = Some REDACTED"
      and "map_option mp_encryptionIv (processing_of st' r) = Some REDACTED" by simp_all
  next
    fix r st'
    assume ok: "getMetadata st fileId opts = (Inr (Some r), st')" and s: "mo_includeSecrets opts"
    with f have "processing_of st' r = Some p" unfolding g by simp
    then show "map_option mp_encryptionKey (processing_of st' r) = Some (mp_encryptionKey p)"
      and "map_option mp_encryptionIv (processing_of st' r) = Some (mp_encryptionIv p)" by simp_all
  qed
qed

lemmas mm_defs = getMetadata_def filterMetadata_def redact_secrets_def restrictedAccess_def
  processing_of_def view_def stored_record_def REDACTED_def Let_def

lemmas mm_demo_defs = mm_one_def record_f1_def secret_processing_def plain_read_def secret_read_def

text \<open>C9 on the one-record store, read without and with \<open>includeSecrets\<close>.\<close>

theorem C9_secrets_redacted_unless_requested_witness:
  "stored_record mm_one ''f1'' = Some (view (mm_heap mm_one) record_f1)
   \<and> md_processing (view (mm_heap mm_one) record_f1) = Some secret_processing
   \<and> truthy (mp_encryptionKey secret_processing) \<and> truthy (mp_encryptionIv secret_processing)
   \<and> (\<exists>r st'. getMetadata mm_one ''f1'' plain_read = (Inr (Some r), st')
          \<and> map_option mp_encryptionKey (processing_of st' r) = Some REDACTED
          \<and> map_option mp_encryptionIv (processing_of st' r) = Some REDACTED)
   \<and> (\<exists>r st'. getMetadata mm_one ''f1'' secret_read = (Inr (Some r), st')
          \<and> map_option mp_encryptionKey (processing_of st' r) = Some (JBuffer [1, 2, 3])
          \<and> map_option mp_encryptionIv (processing_of st' r) = Some (JBuffer [4, 5]))"
proof -
  have r: "stored_record mm_one ''f1'' = Some (view (mm_heap mm_one) record_f1)"
    by (simp add: stored_record_def mm_one_def)
  have p: "md_processing (view (mm_heap mm_one) record_f1) = Some secret_processing"
    by (simp add: view_def mm_one_def record_f1_def)
  have k: "truthy (mp_encryptionKey secret_processing)"
    and v: "truthy (mp_encryptionIv secret_processing)"
    by (simp_all add: secret_processing_def)
  have np: "\<not> restrictedAccess plain_read" "\<not> mo_includeSecrets plain_read"
    by (simp_all add: restrictedAccess_def plain_read_def)
  have ns: "\<not> restrictedAccess secret_read" "mo_includeSecrets secret_read"
    by (simp_all add: restrictedAccess_def secret_read_def)
  from C9_secrets_redacted_unless_requested [OF r p k v, of plain_read] np
  have one: "\<exists>r st'. getMetadata mm_one ''f1'' plain_read = (Inr (Some r), st')
          \<and> map_option mp_encryptionKey (processing_of st' r) = Some REDACTED
          \<and> map_option mp_encryptionIv (processing_of st' r) = Some REDACTED"
    by blast
  from C9_secrets_redacted_unless_requested [OF r p k v, of secret_read] ns
  have "\<exists>r st'. getMetadata mm_one ''f1'' secret_read = (Inr (Some r), st')
          \<and> map_option mp_encryptionKey (processing_of st' r) = Some (mp_encryptionKey secret_processing)
          \<and> map_option mp_encryptionIv (processing_of st' r) = Some (mp_encryptionIv secret_processing)"
    by blast
  then have two: "\<exists>r st'. getMetadata mm_one ''f1'' secret_read = (Inr (Some r), st')
          \<and> map_option mp_encryptionKey (processing_of st' r) = Some (JBuffer [1, 2, 3])
          \<and> map_option mp_encryptionIv (processing_of st' r) = Some (JBuffer [4, 5])"
    by (simp add: secret_processing_def)
  from r p k v one two show ?thesis by (intro conjI)
qed

text \<open>
  C10. The claim: a read leaves the cached record, with its nested secrets, unchanged.
  On the code the redaction is written through the \<open>processing\<close> object that the
  shallow copy shares with the cached record: after one read without \<open>includeSecrets\<close>
  the cached record of \<open>f1\<close> holds \<open>[REDACTED]\<close> for key and IV, and a later read with
  \<open>includeSecrets\<close> returns \<open>[REDACTED]\<close> too.
\<close>

theorem C10_plain_read_redacts_cached_record:
  "Option.bind (stored_record mm_one ''f1'') md_processing = Some secret_processing
   \<and> Option.bind (stored_record (snd (getMetadata mm_one ''f1'' plain_read)) ''f1'') md_processing
       = Some (secret_processing\<lparr>mp_encryptionKey := REDACTED, mp_encryptionIv := REDACTED\<rparr>)
   \<and> (\<exists>r st'. getMetadata (snd (getMetadata mm_one ''f1'' plain_read)) ''f1'' secret_read
                 = (Inr (Some r), st')
          \<and> map_option mp_encryptionKey (processing_of st' r) = Some REDACTED
          \<and> map_option mp_encryptionIv (processing_of st' r) = Some REDACTED)"
  by (simp add: mm_defs mm_demo_defs)

section \<open>Deduplication\<close>













end
